theory Spec2Isabelle
  imports Main "HOL-Library.Sublist" "HOL-Library.AList"
begin

section \<open>JavaScript strings and numbers\<close>

text \<open>
  The registration file is decoded as ISO-8859-1 by default, so every UTF-16 code unit of
  the text is below 256 and a JavaScript string is modelled as an Isabelle \<open>string\<close>
  whose characters are these code units. The functions below are the parts of the
  JavaScript string library that the converter calls, restricted to that range.

  Numbers that the row parser produces come from \<open>Number\<close> applied to a run of decimal
  digits; they are modelled as \<open>nat\<close>. This is exact up to \<open>2 ^ 53\<close>, where JavaScript
  starts to round; event numbers, relay counts and distances are far below that.
\<close>

definition codeUnit :: "char \<Rightarrow> nat" where
  "codeUnit c = of_char c"

text \<open>White space and line terminators below 256: what \<open>trim\<close> removes and \<open>\s\<close> matches.\<close>

definition isWhiteSpace :: "char \<Rightarrow> bool" where
  "isWhiteSpace c = (codeUnit c \<in> {9, 10, 11, 12, 13, 32, 160})"

definition trim :: "string \<Rightarrow> string" where
  "trim s = rev (dropWhile isWhiteSpace (rev (dropWhile isWhiteSpace s)))"

text \<open>The regular expression class \<open>\d\<close>: the ASCII digits only.\<close>

definition isDigit :: "char \<Rightarrow> bool" where
  "isDigit c = (48 \<le> codeUnit c \<and> codeUnit c \<le> 57)"

definition allDigits :: "string \<Rightarrow> bool" where
  "allDigits s = (s \<noteq> [] \<and> list_all isDigit s)"

text \<open>\<open>Number\<close> on a string that matched \<open>\d+\<close>: its decimal value.\<close>

definition Number_digits :: "string \<Rightarrow> nat" where
  "Number_digits s = foldl (\<lambda>a c. 10 * a + (codeUnit c - 48)) 0 s"

text \<open>\<open>String(n)\<close> for a natural number: decimal digits, no leading zero.\<close>

fun String_nat :: "nat \<Rightarrow> string" where
  "String_nat n =
     (if n < 10 then [char_of (48 + n)]
      else String_nat (n div 10) @ [char_of (48 + n mod 10)])"

declare String_nat.simps [simp del]

definition String_int :: "int \<Rightarrow> string" where
  "String_int i = (if i < 0 then CHR ''-'' # String_nat (nat (- i)) else String_nat (nat i))"

text \<open>
  \<open>toUpperCase\<close> and \<open>toLowerCase\<close> on code units below 256. The sharp s becomes two
  letters. The two letters whose capital lies above 255 (micro sign, y with diaeresis)
  are left as they are: no pattern or table of the converter mentions a character
  outside ASCII, so the difference cannot be observed by it.
\<close>

definition toUpperChar :: "char \<Rightarrow> string" where
  "toUpperChar c =
     (let n = codeUnit c in
      if 97 \<le> n \<and> n \<le> 122 then [char_of (n - 32)]
      else if n = 223 then ''SS''
      else if 224 \<le> n \<and> n \<le> 254 \<and> n \<noteq> 247 then [char_of (n - 32)]
      else [c])"

definition toUpperCase :: "string \<Rightarrow> string" where
  "toUpperCase s = concat (map toUpperChar s)"

definition toLowerChar :: "char \<Rightarrow> char" where
  "toLowerChar c =
     (let n = codeUnit c in
      if 65 \<le> n \<and> n \<le> 90 then char_of (n + 32)
      else if 192 \<le> n \<and> n \<le> 222 \<and> n \<noteq> 215 then char_of (n + 32)
      else c)"

definition toLowerCase :: "string \<Rightarrow> string" where
  "toLowerCase s = map toLowerChar s"

text \<open>\<open>s.split(d)\<close> for a one-character separator: always at least one segment.\<close>

fun splitOn :: "char \<Rightarrow> string \<Rightarrow> string list" where
  "splitOn d [] = [[]]"
| "splitOn d (c # cs) =
     (if c = d then [] # splitOn d cs
      else (case splitOn d cs of
              x # xs \<Rightarrow> (c # x) # xs
            | [] \<Rightarrow> [[c]]))"

text \<open>
  \<open>content.split(/\r?\n/)\<close>: a line feed ends a segment, and a carriage return directly
  before it belongs to the separator.
\<close>

fun splitLines :: "string \<Rightarrow> string list" where
  "splitLines [] = [[]]"
| "splitLines [c] = (if c = CHR 0x0A then [[], []] else [[c]])"
| "splitLines (c # d # cs) =
     (if c = CHR 0x0A then [] # splitLines (d # cs)
      else if c = CHR 0x0D \<and> d = CHR 0x0A then [] # splitLines cs
      else (case splitLines (d # cs) of
              x # xs \<Rightarrow> (c # x) # xs
            | [] \<Rightarrow> [[c]]))"

section \<open>Row parser (unipParser.ts)\<close>

text \<open>\<open>normalizeField\<close>: an undefined field counts as the empty string.\<close>

definition normalizeField :: "string option \<Rightarrow> string" where
  "normalizeField v = trim (case v of None \<Rightarrow> [] | Some s \<Rightarrow> s)"

record DistanceInfo =
  diRelayCount :: nat
  diDistance :: "nat option"
  diIssues :: "string list"

text \<open>
  The pattern \<open>^(\d+)\s*\*\s*(\d+)$\<close>. Digits, white space and the star are disjoint
  classes, so the greedy reading below is the only way the pattern can match.
\<close>

definition relayMatch :: "string \<Rightarrow> (string \<times> string) option" where
  "relayMatch s =
     (let r = takeWhile isDigit s;
          afterR = dropWhile isWhiteSpace (dropWhile isDigit s)
      in if r = [] then None
         else (case afterR of
                 [] \<Rightarrow> None
               | c # rest \<Rightarrow>
                   if c = CHR ''*''
                   then (let d = dropWhile isWhiteSpace rest
                         in if allDigits d then Some (r, d) else None)
                   else None))"

definition parseDistance :: "string option \<Rightarrow> DistanceInfo" where
  "parseDistance v =
     (let trimmed = normalizeField v in
      case relayMatch trimmed of
        Some (r, d) \<Rightarrow>
          \<lparr>diRelayCount = Number_digits r, diDistance = Some (Number_digits d), diIssues = []\<rparr>
      | None \<Rightarrow>
          if allDigits trimmed
          then \<lparr>diRelayCount = 1, diDistance = Some (Number_digits trimmed), diIssues = []\<rparr>
          else \<lparr>diRelayCount = 1, diDistance = None,
                diIssues = [''Field 2 (distance) is invalid'']\<rparr>)"

text \<open>The lookup tables of the parser. Every key is looked up in upper case.\<close>

definition strokeMap :: "string \<rightharpoonup> string" where
  "strokeMap = map_of
     [(''FR'', ''FREE''), (''BR'', ''BREAST''), (''RY'', ''BACK''),
      (''BU'', ''FLY''), (''IM'', ''MEDLEY''), (''LM'', ''MEDLEY'')]"

definition genderMap :: "string \<rightharpoonup> string" where
  "genderMap = map_of [(''M'', ''M''), (''K'', ''F''), (''X'', ''X'')]"

definition mastersLetters :: "string" where
  "mastersLetters = ''ABCDEFGHIJKLMNO''"

definition ageGroupMap :: "string \<rightharpoonup> string" where
  "ageGroupMap = map_of
     ([(''JR'', ''Junior''), (''SR'', ''Senior'')] @
      map (\<lambda>c. ([CHR ''M'', c], ''Masters '' @ [c])) mastersLetters)"

definition relayClassMap :: "string \<rightharpoonup> string" where
  "relayClassMap = map_of
     ([(''JUNIOR'', ''Junior''), (''SENIOR'', ''Senior'')] @
      map (\<lambda>c. (''MASTERS'' @ [c], ''Masters '' @ [c])) mastersLetters)"

text \<open>
  A pattern \<open>^(p1|p2|...)tail$\<close>: the first alternative after which the rest of the string
  matches the tail, as the backtracking matcher finds it.
\<close>

definition matchAlternatives ::
  "string list \<Rightarrow> (string \<Rightarrow> bool) \<Rightarrow> string \<Rightarrow> (string \<times> string) option" where
  "matchAlternatives alts tailOk s =
     (case List.find (\<lambda>p. prefix p s \<and> tailOk (drop (length p) s)) alts of
        None \<Rightarrow> None
      | Some p \<Rightarrow> Some (p, drop (length p) s))"

text \<open>The level part \<open>(1[0-5]|[1-9])\<close> of a para class.\<close>

definition isParaLevel :: "string \<Rightarrow> bool" where
  "isParaLevel l =
     (case l of
        [c] \<Rightarrow> c \<in> set ''123456789''
      | [c, d] \<Rightarrow> c = CHR ''1'' \<and> d \<in> set ''012345''
      | _ \<Rightarrow> False)"

definition parseParaClassPrefix :: "string \<Rightarrow> string option" where
  "parseParaClassPrefix v =
     (case matchAlternatives [''S'', ''SB'', ''SM''] isParaLevel (toUpperCase (trim v)) of
        None \<Rightarrow> None
      | Some (p, l) \<Rightarrow>
          if p = ''SB'' \<or> p = ''SM'' \<or> p = ''S'' then Some p else None)"

record GenderInfo =
  giGender :: string
  giAgeGroupCode :: string
  giIssues :: "string list"

definition parseGenderAndAgeGroup :: "string option \<Rightarrow> GenderInfo" where
  \<open>parseGenderAndAgeGroup v =
     (case toUpperCase (normalizeField v) of
        [] \<Rightarrow> \<lparr>giGender = [], giAgeGroupCode = [],
               giIssues = [''Field 7 (gender+agegroup) is missing'']\<rparr>
      | g # ageGroupCodeRaw \<Rightarrow>
          (let genderCode = [g];
               gender = (case genderMap genderCode of None \<Rightarrow> [] | Some x \<Rightarrow> x);
               ageGroupCode =
                 (if length ageGroupCodeRaw = 2 \<and> list_all isDigit ageGroupCodeRaw
                  then ''Born YY='' @ ageGroupCodeRaw
                  else (case ageGroupMap ageGroupCodeRaw of
                          None \<Rightarrow> ageGroupCodeRaw
                        | Some x \<Rightarrow> x))
           in \<lparr>giGender = gender, giAgeGroupCode = ageGroupCode,
                giIssues =
                  (if gender = [] then [''Unknown gender code "'' @ genderCode @ ''" in field 7'']
                   else []) @
                  (if ageGroupCodeRaw = [] then [''Field 7 agegroup part is missing'']
                   else [])\<rparr>))\<close>

record BirthInfo =
  biBirthYearOrClass :: string
  biIssues :: "string list"

definition parseBirthYearOrClass :: "string option \<Rightarrow> bool \<Rightarrow> string \<Rightarrow> BirthInfo" where
  \<open>parseBirthYearOrClass v isRelay ageGroupFromField7 =
     (let trimmed = toUpperCase (normalizeField v) in
      if trimmed = [] then
        (if isRelay then \<lparr>biBirthYearOrClass = ageGroupFromField7, biIssues = []\<rparr>
         else \<lparr>biBirthYearOrClass = [],
               biIssues = [''Field 8 (birth year/class) is missing'']\<rparr>)
      else if length trimmed = 4 \<and> list_all isDigit trimmed then
        \<lparr>biBirthYearOrClass = trimmed, biIssues = []\<rparr>
      else (case relayClassMap trimmed of
              Some c \<Rightarrow> \<lparr>biBirthYearOrClass = c, biIssues = []\<rparr>
            | None \<Rightarrow>
                if matchAlternatives [''S'', ''SB'', ''SM''] isParaLevel trimmed \<noteq> None then
                  \<lparr>biBirthYearOrClass = trimmed, biIssues = []\<rparr>
                else if matchAlternatives [''S'', ''SB'', ''SM''] allDigits trimmed \<noteq> None then
                  \<lparr>biBirthYearOrClass = trimmed,
                   biIssues = [''Invalid para class "'' @ trimmed @
                               ''" (accepted: S1-S15, SB1-SB15, SM1-SM15)'']\<rparr>
                else \<lparr>biBirthYearOrClass = trimmed, biIssues = []\<rparr>))\<close>

definition parsePoolCourse :: "string option \<Rightarrow> string option" where
  "parsePoolCourse v =
     (let normalized = toUpperCase (normalizeField v) in
      if normalized = ''K'' then Some ''SCM''
      else if normalized = ''L'' then Some ''LCM''
      else None)"

record UniPRow =
  lineNumber :: nat
  eventNumber :: "nat option"
  relayCount :: nat
  distance :: "nat option"
  strokeCode :: string
  stroke :: string
  lastName :: string
  firstName :: string
  gender :: string
  ageGroupCode :: string
  birthYearOrClass :: string
  qualificationTime :: "string option"
  qualificationDate :: "string option"
  qualificationPlace :: "string option"
  poolCourse :: "string option"
  issues :: "string list"

record UniPParseResult =
  clubName :: string
  rows :: "UniPRow list"

datatype error = Error string

text \<open>\<open>fields[i]\<close>: undefined beyond the end of the array.\<close>

definition field :: "string list \<Rightarrow> nat \<Rightarrow> string option" where
  "field flds i = (if i < length flds then Some (flds ! i) else None)"

text \<open>\<open>while (fields.length < 15) fields.push('')\<close>\<close>

definition padFields :: "string list \<Rightarrow> string list" where
  "padFields flds = flds @ replicate (15 - length flds) []"

text \<open>\<open>normalizeField(x) || null\<close>: the empty string becomes null.\<close>

definition orNull :: "string \<Rightarrow> string option" where
  "orNull s = (if s = [] then None else Some s)"

text \<open>
  The relay branch of the row loop: \<open>^[MKX]M(.)$\<close> on field 7, then \<open>^[OA-G]$\<close> on the
  captured letter. The dot matches everything but a line terminator.
\<close>

definition mastersRelayClassIssues :: "bool \<Rightarrow> string \<Rightarrow> string list" where
  \<open>mastersRelayClassIssues isRelay field7Raw =
     (if isRelay then
        (case field7Raw of
           [g, m, mastersClassCode] \<Rightarrow>
             if g \<in> set ''MKX'' \<and> m = CHR ''M'' \<and>
                mastersClassCode \<noteq> CHR 0x0A \<and> mastersClassCode \<noteq> CHR 0x0D
             then (if mastersClassCode \<in> set ''OABCDEFG'' then []
                   else [''Invalid masters relay class in field 7 "'' @ field7Raw @
                         ''" (allowed: O, A-G)''])
             else []
         | _ \<Rightarrow> [])
      else [])\<close>

text \<open>The table \<open>expectedPrefixByStroke\<close> of the individual branch, keyed by stroke code.\<close>

definition expectedPrefixByStroke :: "string \<rightharpoonup> string" where
  "expectedPrefixByStroke = map_of
     [(''FR'', ''S''), (''BU'', ''S''), (''RY'', ''S''), (''BR'', ''SB''), (''IM'', ''SM'')]"

definition paraClassIssue :: "string \<Rightarrow> string \<Rightarrow> string \<Rightarrow> string" where
  \<open>paraClassIssue cls code expectedPrefix =
     ''Invalid para class "'' @ cls @ ''" for stroke '' @ code @
     '' (expected '' @ expectedPrefix @ '' class)''\<close>

definition paraClassIssues :: "bool \<Rightarrow> string \<Rightarrow> string \<Rightarrow> string \<Rightarrow> string list" where
  "paraClassIssues isRelay strokeName code cls =
     (if \<not> isRelay \<and> strokeName \<noteq> [] then
        (case parseParaClassPrefix cls of
           None \<Rightarrow> []
         | Some paraClassPrefix \<Rightarrow>
             (case expectedPrefixByStroke code of
                None \<Rightarrow> []
              | Some expectedPrefix \<Rightarrow>
                  if expectedPrefix \<noteq> [] \<and> paraClassPrefix \<noteq> expectedPrefix
                  then [paraClassIssue cls code expectedPrefix]
                  else []))
      else [])"

text \<open>The body of the row loop of \<open>parseUniP\<close>, for the line at index \<open>lineIndex\<close>.\<close>

definition parseRow :: "nat \<Rightarrow> string \<Rightarrow> UniPRow" where
  \<open>parseRow lineIndex sourceLine =
     (let flds = padFields (splitOn CHR '','' sourceLine);
          eventNumberRaw = normalizeField (field flds 0);
          distanceInfo = parseDistance (field flds 1);
          code = toUpperCase (normalizeField (field flds 2));
          strokeName = (case strokeMap code of None \<Rightarrow> [] | Some x \<Rightarrow> x);
          lname = normalizeField (field flds 3);
          fname = normalizeField (field flds 4);
          genderInfo = parseGenderAndAgeGroup (field flds 6);
          isRelay = (diRelayCount distanceInfo > 1);
          birthInfo = parseBirthYearOrClass (field flds 7) isRelay (giAgeGroupCode genderInfo);
          field7Raw = toUpperCase (normalizeField (field flds 6));
          evNumber = (if allDigits eventNumberRaw then Some (Number_digits eventNumberRaw)
                      else None)
      in \<lparr>lineNumber = lineIndex + 1,
          eventNumber = evNumber,
          relayCount = diRelayCount distanceInfo,
          distance = diDistance distanceInfo,
          strokeCode = code,
          stroke = strokeName,
          lastName = lname,
          firstName = fname,
          gender = giGender genderInfo,
          ageGroupCode = giAgeGroupCode genderInfo,
          birthYearOrClass = biBirthYearOrClass birthInfo,
          qualificationTime = orNull (normalizeField (field flds 8)),
          qualificationDate = orNull (normalizeField (field flds 10)),
          qualificationPlace = orNull (normalizeField (field flds 11)),
          poolCourse = parsePoolCourse (field flds 12),
          issues =
            diIssues distanceInfo @ giIssues genderInfo @ biIssues birthInfo @
            (if evNumber = None then [''Field 1 (event number) is missing or invalid'']
             else []) @
            (if strokeName = [] then [''Field 3 (stroke) value "'' @ code @ ''" is unknown'']
             else []) @
            (if lname = [] then [''Field 4 (last name/team) is missing''] else []) @
            (if \<not> isRelay \<and> fname = []
             then [''Field 5 (first name) is missing for an individual event'']
             else []) @
            mastersRelayClassIssues isRelay field7Raw @
            paraClassIssues isRelay strokeName code (biBirthYearOrClass birthInfo)\<rparr>)\<close>

text \<open>The row loop: \<open>lineIndex\<close> counts up from 1 over the lines after the club name.\<close>

primrec parseRows :: "nat \<Rightarrow> string list \<Rightarrow> UniPRow list" where
  "parseRows lineIndex [] = []"
| "parseRows lineIndex (l # ls) = parseRow lineIndex l # parseRows (lineIndex + 1) ls"

definition nonBlankLines :: "string \<Rightarrow> string list" where
  "nonBlankLines content = filter (\<lambda>line. length (trim line) > 0) (splitLines content)"

definition parseUniP :: "string \<Rightarrow> error + UniPParseResult" where
  "parseUniP content =
     (case nonBlankLines content of
        [] \<Rightarrow> Inl (Error ''UNI_p file is empty.'')
      | l # ls \<Rightarrow> Inr \<lparr>clubName = trim l, rows = parseRows 1 ls\<rparr>)"

section \<open>Meet catalog (types.ts, lenexParser.ts)\<close>

text \<open>
  The catalog reader fills the numeric fields of an event with \<open>Number(attribute)\<close>:
  an integer, or NaN when the attribute text is not a number. Values that are neither
  (fractions, infinities) are not modelled. \<open>===\<close> and the order comparisons are false
  whenever NaN takes part.
\<close>

datatype jsnum = NaN | Num int

fun jsEq :: "jsnum \<Rightarrow> jsnum \<Rightarrow> bool" where
  "jsEq (Num a) (Num b) = (a = b)"
| "jsEq _ _ = False"

fun jsLt :: "jsnum \<Rightarrow> jsnum \<Rightarrow> bool" where
  "jsLt (Num a) (Num b) = (a < b)"
| "jsLt _ _ = False"

fun jsLe :: "jsnum \<Rightarrow> jsnum \<Rightarrow> bool" where
  "jsLe (Num a) (Num b) = (a \<le> b)"
| "jsLe _ _ = False"

fun String_num :: "jsnum \<Rightarrow> string" where
  "String_num NaN = ''NaN''"
| "String_num (Num i) = String_int i"

record AgeGroup =
  agemin :: jsnum
  agemax :: jsnum
  agName :: string

record LenexEvent =
  number :: string
  eventId :: string
  evGender :: string
  round :: string
  name :: string
  evStroke :: string
  evRelayCount :: jsnum
  evDistance :: jsnum
  sessionDate :: string
  ageGroups :: "AgeGroup list"

record LenexSession =
  sessNumber :: string
  sessName :: string
  sessDate :: string
  events :: "LenexEvent list"

record LenexMeetSummary =
  meetName :: string
  meetCity :: string
  nation :: string
  meetCourse :: string
  sessions :: "LenexSession list"
  totalEvents :: nat

section \<open>Cross-validation (App.tsx)\<close>

text \<open>
  The index \<open>lenexEventsByNumber\<close>: every event of every session, in document order,
  appended to the list stored under its number.
\<close>

definition addEvent :: "(string \<rightharpoonup> LenexEvent list) \<Rightarrow> LenexEvent \<Rightarrow> (string \<rightharpoonup> LenexEvent list)" where
  "addEvent m e =
     m(number e \<mapsto> (case m (number e) of None \<Rightarrow> [] | Some existing \<Rightarrow> existing) @ [e])"

definition lenexEventsByNumber :: "LenexMeetSummary option \<Rightarrow> (string \<rightharpoonup> LenexEvent list)" where
  "lenexEventsByNumber lenexSummary =
     (case lenexSummary of
        None \<Rightarrow> Map.empty
      | Some summary \<Rightarrow> foldl addEvent Map.empty (concat (map events (sessions summary))))"

text \<open>\<open>Array.from(new Set(xs))\<close>: the first occurrence of every element, in order.\<close>

definition arrayFromSet :: "'a list \<Rightarrow> 'a list" where
  "arrayFromSet xs = rev (remdups (rev xs))"

definition mergeIssues :: "string list \<Rightarrow> string list \<Rightarrow> string list" where
  "mergeIssues baseIssues validationIssues = arrayFromSet (baseIssues @ validationIssues)"

definition forbiddenRegistrationRounds :: "string set" where
  "forbiddenRegistrationRounds = set [''FIN'', ''SEM'', ''QUA'', ''SOP'', ''SOS'', ''SOQ'']"

definition fourDigits :: "string \<Rightarrow> bool" where
  "fourDigits s = (length s = 4 \<and> list_all isDigit s)"

text \<open>
  \<open>inferFullYearFromAgeGroup\<close> reads the clock: \<open>currentYear\<close> stands for
  \<open>new Date().getFullYear()\<close>. The pattern is \<open>^Born YY=(\d{2})$\<close>.
\<close>

definition inferFullYearFromAgeGroup :: "nat \<Rightarrow> string \<Rightarrow> string option" where
  "inferFullYearFromAgeGroup currentYear code =
     (if prefix ''Born YY='' code \<and> length (drop 8 code) = 2 \<and> list_all isDigit (drop 8 code)
      then (let yy = Number_digits (drop 8 code);
                currentYearShort = currentYear mod 100;
                fullYear = (if yy \<le> currentYearShort then 2000 + yy else 1900 + yy)
            in Some (String_nat fullYear))
      else None)"

definition inferBirthYear :: "nat \<Rightarrow> UniPRow \<Rightarrow> string option" where
  "inferBirthYear currentYear row =
     (if fourDigits (birthYearOrClass row) then Some (birthYearOrClass row)
      else inferFullYearFromAgeGroup currentYear (ageGroupCode row))"

definition getAgeAtEventYear :: "nat \<Rightarrow> UniPRow \<Rightarrow> LenexEvent \<Rightarrow> int option" where
  "getAgeAtEventYear currentYear row event =
     (if relayCount row > 1 then None
      else (case inferBirthYear currentYear row of
              None \<Rightarrow> None
            | Some birthYear \<Rightarrow>
                if birthYear = [] \<or> \<not> fourDigits birthYear then None
                else if \<not> fourDigits (take 4 (sessionDate event)) then None
                else Some (int (Number_digits (take 4 (sessionDate event))) -
                           int (Number_digits birthYear))))"

definition ageInGroup :: "int \<Rightarrow> AgeGroup \<Rightarrow> bool" where
  "ageInGroup age ageGroup =
     (let minOk = (jsLt (agemin ageGroup) (Num 0) \<or> jsLe (agemin ageGroup) (Num age));
          maxOk = (jsLt (agemax ageGroup) (Num 0) \<or> jsLe (Num age) (agemax ageGroup))
      in minOk \<and> maxOk)"

definition isAgeInAnyEventAgeGroup :: "int \<Rightarrow> LenexEvent \<Rightarrow> bool" where
  "isAgeInAnyEventAgeGroup age event =
     (if length (ageGroups event) = 0 then True
      else list_ex (ageInGroup age) (ageGroups event))"

text \<open>The four conditions of the filter that yields \<open>compatibleCandidates\<close>.\<close>

definition relayMatches :: "UniPRow \<Rightarrow> LenexEvent \<Rightarrow> bool" where
  "relayMatches row event = jsEq (evRelayCount event) (Num (int (relayCount row)))"

definition distanceMatches :: "UniPRow \<Rightarrow> LenexEvent \<Rightarrow> bool" where
  "distanceMatches row event =
     (case distance row of None \<Rightarrow> False | Some d \<Rightarrow> jsEq (evDistance event) (Num (int d)))"

definition strokeMatches :: "UniPRow \<Rightarrow> LenexEvent \<Rightarrow> bool" where
  "strokeMatches row event = (stroke row = [] \<or> evStroke event = stroke row)"

definition genderMatches :: "UniPRow \<Rightarrow> LenexEvent \<Rightarrow> bool" where
  "genderMatches row event = (gender row = [] \<or> evGender event = gender row)"

definition compatible :: "UniPRow \<Rightarrow> LenexEvent \<Rightarrow> bool" where
  "compatible row event =
     (relayMatches row event \<and> distanceMatches row event \<and>
      strokeMatches row event \<and> genderMatches row event)"

definition roundAllowed :: "LenexEvent \<Rightarrow> bool" where
  "roundAllowed event = (round event \<notin> forbiddenRegistrationRounds)"

definition isJuniorRelay :: "UniPRow \<Rightarrow> bool" where
  "isJuniorRelay row = (relayCount row > 1 \<and> toLowerCase (trim (ageGroupCode row)) = ''junior'')"

definition isJuniorGroup :: "AgeGroup \<Rightarrow> bool" where
  "isJuniorGroup ageGroup = (toLowerCase (trim (agName ageGroup)) = ''junior'')"

definition candidatesFor :: "(string \<rightharpoonup> LenexEvent list) \<Rightarrow> nat \<Rightarrow> LenexEvent list" where
  "candidatesFor eventsByNumber n =
     (case eventsByNumber (String_nat n) of None \<Rightarrow> [] | Some es \<Rightarrow> es)"

definition compatibleCandidates :: "UniPRow \<Rightarrow> LenexEvent list \<Rightarrow> LenexEvent list" where
  "compatibleCandidates row candidates = filter (compatible row) candidates"

text \<open>The part of \<open>validateRowAgainstLenex\<close> that runs when compatible candidates exist.\<close>

definition registrationIssues :: "LenexEvent list \<Rightarrow> string list" where
  "registrationIssues cs =
     (if list_ex roundAllowed cs then []
      else map (\<lambda>r. ''Registration for '' @ r)
             (filter (\<lambda>r. r \<in> forbiddenRegistrationRounds) (arrayFromSet (map round cs))))"

definition allowedOrAll :: "LenexEvent list \<Rightarrow> LenexEvent list" where
  "allowedOrAll cs =
     (let allowed = filter roundAllowed cs
      in if length allowed > 0 then allowed else cs)"

definition juniorRelayIssues :: "UniPRow \<Rightarrow> LenexEvent list \<Rightarrow> string list" where
  "juniorRelayIssues row cs =
     (if isJuniorRelay row
      then (if list_ex (\<lambda>event. list_ex isJuniorGroup (ageGroups event)) (allowedOrAll cs)
            then []
            else [''Missing JUNIOR age group in Lenex event for junior relay''])
      else [])"

text \<open>
  \<open>ageCheckCandidates[0]\<close> exists: the list is the compatible candidates or a non-empty
  part of them, and this code runs only when there is a compatible candidate.
\<close>

definition ageIssues :: "nat \<Rightarrow> UniPRow \<Rightarrow> nat \<Rightarrow> LenexEvent list \<Rightarrow> string list" where
  "ageIssues currentYear row n cs =
     (let ageCheckCandidates = allowedOrAll cs;
          swimmerAge = (case ageCheckCandidates of
                          [] \<Rightarrow> None
                        | event # _ \<Rightarrow> getAgeAtEventYear currentYear row event)
      in case swimmerAge of
           None \<Rightarrow> []
         | Some age \<Rightarrow>
             if \<not> list_ex (isAgeInAnyEventAgeGroup age) ageCheckCandidates
             then [''Invalid age group (age '' @ String_int age @
                   '' not allowed for event '' @ String_nat n @ '')'']
             else [])"

definition validateRowAgainstLenex ::
  "nat \<Rightarrow> UniPRow \<Rightarrow> (string \<rightharpoonup> LenexEvent list) \<Rightarrow> bool \<Rightarrow> string list" where
  "validateRowAgainstLenex currentYear row eventsByNumber hasLenex =
     (case eventNumber row of
        None \<Rightarrow> []
      | Some n \<Rightarrow>
          if \<not> hasLenex then []
          else (let candidates = candidatesFor eventsByNumber n in
                if length candidates = 0 then [''Invalid event'']
                else
                  (if \<not> list_ex (relayMatches row) candidates then [''Invalid length''] else []) @
                  (if \<not> list_ex (distanceMatches row) candidates then [''Invalid distance'']
                   else []) @
                  (if stroke row \<noteq> [] \<and> \<not> list_ex (\<lambda>e. evStroke e = stroke row) candidates
                   then [''Invalid style''] else []) @
                  (if gender row \<noteq> [] \<and> \<not> list_ex (\<lambda>e. evGender e = gender row) candidates
                   then [''Invalid gender''] else []) @
                  (let cs = compatibleCandidates row candidates in
                   if length cs > 0
                   then registrationIssues cs @ juniorRelayIssues row cs @
                        ageIssues currentYear row n cs
                   else [])))"

section \<open>Entry builder (App.tsx)\<close>

definition toLenexEntryTime :: "string option \<Rightarrow> string option" where
  "toLenexEntryTime v =
     (case v of
        None \<Rightarrow> None
      | Some s \<Rightarrow>
          if s = [] then None
          else (let trimmed = trim s; segments = splitOn CHR '':'' trimmed
                in if length segments = 2 then Some (''00:'' @ trimmed)
                   else if length segments = 3 then Some trimmed
                   else None))"

definition toLenexDate :: "string option \<Rightarrow> string option" where
  "toLenexDate v =
     (case v of
        None \<Rightarrow> None
      | Some s \<Rightarrow>
          if s = [] then None
          else (let compact = trim s
                in if length compact = 8 \<and> list_all isDigit compact
                   then Some (take 4 compact @ ''-'' @ take 2 (drop 4 compact) @ ''-'' @
                              take 2 (drop 6 compact))
                   else Some compact))"

text \<open>\<open>getHandicapFromClass\<close>: the attribute name and the level of a para class.\<close>

definition getHandicapFromClass :: "string \<Rightarrow> (string \<times> string) option" where
  "getHandicapFromClass v =
     (case matchAlternatives [''SB'', ''SM'', ''S''] isParaLevel (toUpperCase (trim v)) of
        None \<Rightarrow> None
      | Some (p, level) \<Rightarrow>
          if p = ''SB'' then Some (''breast'', level)
          else if p = ''SM'' then Some (''medley'', level)
          else Some (''free'', level))"

definition mastersRelayAgeRangeByClass :: "string \<rightharpoonup> nat \<times> nat" where
  "mastersRelayAgeRangeByClass = map_of
     [(''O'', (80, 99)), (''A'', (100, 119)), (''B'', (120, 159)), (''C'', (160, 199)),
      (''D'', (200, 239)), (''E'', (240, 279)), (''F'', (280, 319)), (''G'', (320, 359))]"

text \<open>
  Matching with the flag \<open>i\<close> compares characters after mapping each to its capital, when
  that capital is a single character.
\<close>

definition canonicalize :: "char \<Rightarrow> char" where
  "canonicalize c = (case toUpperChar c of [u] \<Rightarrow> u | _ \<Rightarrow> c)"

text \<open>The pattern \<open>/^Masters\s+([OA-G])$/i\<close>; the result is the captured letter.\<close>

definition mastersMatch :: "string \<Rightarrow> char option" where
  "mastersMatch v =
     (if map canonicalize (take 7 v) = ''MASTERS'' then
        (let rest = drop 7 v in
         case dropWhile isWhiteSpace rest of
           [c] \<Rightarrow> if takeWhile isWhiteSpace rest \<noteq> [] \<and> canonicalize c \<in> set ''OABCDEFG''
                  then Some c else None
         | _ \<Rightarrow> None)
      else None)"

fun firstMastersRange :: "string list \<Rightarrow> (string \<times> string) option" where
  "firstMastersRange [] = None"
| "firstMastersRange (v # vs) =
     (case mastersMatch v of
        None \<Rightarrow> firstMastersRange vs
      | Some c \<Rightarrow>
          (case mastersRelayAgeRangeByClass (toUpperCase [c]) of
             Some (lo, hi) \<Rightarrow> Some (String_nat lo, String_nat hi)
           | None \<Rightarrow> firstMastersRange vs))"

definition getMastersRelayAgeTotalRange :: "UniPRow \<Rightarrow> (string \<times> string) option" where
  "getMastersRelayAgeTotalRange row =
     firstMastersRange (map trim [birthYearOrClass row, ageGroupCode row])"

definition getJuniorRelayAgeMax :: "UniPRow \<Rightarrow> LenexEvent \<Rightarrow> string option" where
  "getJuniorRelayAgeMax row event =
     (if \<not> isJuniorRelay row then None
      else (case List.find isJuniorGroup (ageGroups event) of
              None \<Rightarrow> None
            | Some juniorGroup \<Rightarrow> Some (String_num (agemax juniorGroup))))"

definition findMatchingLenexEvent ::
  "UniPRow \<Rightarrow> (string \<rightharpoonup> LenexEvent list) \<Rightarrow> LenexEvent option" where
  "findMatchingLenexEvent row eventsByNumber =
     (case eventNumber row of
        None \<Rightarrow> None
      | Some n \<Rightarrow>
          List.find
            (\<lambda>event. roundAllowed event \<and> relayMatches row event \<and> distanceMatches row event \<and>
                      strokeMatches row event \<and> genderMatches row event)
            (candidatesFor eventsByNumber n))"

text \<open>
  The generated elements. An element's attributes are a list of name and value in the
  order in which they were first set; \<open>setAttribute\<close> replaces the value of a name that is
  present. \<open>setAttributes\<close> skips a value that is null or empty.
\<close>

type_synonym attributes = "(string \<times> string) list"

definition setAttribute :: "attributes \<Rightarrow> string \<Rightarrow> string \<Rightarrow> attributes" where
  "setAttribute attrs n v = AList.update n v attrs"

definition setAttributes :: "attributes \<Rightarrow> (string \<times> string option) list \<Rightarrow> attributes" where
  "setAttributes attrs nvs =
     foldl (\<lambda>a (n, v). case v of
                         None \<Rightarrow> a
                       | Some s \<Rightarrow> if s = [] then a else setAttribute a n s)
       attrs nvs"

record Entry =
  entryAttributes :: attributes
  meetInfo :: "attributes option"

record Athlete =
  athleteAttributes :: attributes
  entries :: "Entry list"
  handicap :: "attributes option"

record Relay =
  relayAttributes :: attributes
  relayEntries :: "Entry list"

definition truthy :: "string option \<Rightarrow> bool" where
  "truthy v = (case v of None \<Rightarrow> False | Some s \<Rightarrow> s \<noteq> [])"

definition createEntryElement :: "UniPRow \<Rightarrow> LenexEvent \<Rightarrow> Entry" where
  "createEntryElement row lenexEvent =
     (let entryTime = toLenexEntryTime (qualificationTime row);
          meetInfoDate = toLenexDate (qualificationDate row)
      in \<lparr>entryAttributes =
            setAttributes []
              [(''eventid'', Some (eventId lenexEvent)),
               (''entrytime'', entryTime),
               (''entrycourse'', poolCourse row)],
          meetInfo =
            (if truthy meetInfoDate \<or> truthy (qualificationPlace row)
             then Some (setAttributes []
                          [(''course'', poolCourse row),
                           (''date'', meetInfoDate),
                           (''city'', qualificationPlace row)])
             else None)\<rparr>)"

definition createRelayElement :: "nat \<Rightarrow> UniPRow \<Rightarrow> LenexEvent \<Rightarrow> Relay" where
  "createRelayElement nextRelayNumber row lenexEvent =
     (let mastersRelayAgeTotal = getMastersRelayAgeTotalRange row;
          juniorRelayAgeMax = getJuniorRelayAgeMax row lenexEvent
      in \<lparr>relayAttributes =
            setAttributes []
              [(''number'', Some (String_nat nextRelayNumber)),
               (''name'', Some (lastName row)),
               (''agemin'', Some ''-1''),
               (''agemax'', Some (case juniorRelayAgeMax of None \<Rightarrow> ''-1'' | Some m \<Rightarrow> m)),
               (''agetotalmin'',
                  Some (case mastersRelayAgeTotal of None \<Rightarrow> ''-1'' | Some (lo, hi) \<Rightarrow> lo)),
               (''agetotalmax'',
                  Some (case mastersRelayAgeTotal of None \<Rightarrow> ''-1'' | Some (lo, hi) \<Rightarrow> hi)),
               (''gender'', Some (gender row))],
          relayEntries = [createEntryElement row lenexEvent]\<rparr>)"

definition athleteKey :: "nat \<Rightarrow> UniPRow \<Rightarrow> string" where
  "athleteKey currentYear row =
     lastName row @ ''|'' @ firstName row @ ''|'' @ gender row @ ''|'' @
     (case inferBirthYear currentYear row of None \<Rightarrow> [] | Some y \<Rightarrow> y)"

definition createAthleteElement :: "nat \<Rightarrow> nat \<Rightarrow> UniPRow \<Rightarrow> Athlete" where
  "createAthleteElement currentYear nextAthleteId row =
     (let birthYear = inferBirthYear currentYear row
      in \<lparr>athleteAttributes =
            setAttributes []
              [(''athleteid'', Some (String_nat nextAthleteId)),
               (''birthdate'',
                  if truthy birthYear
                  then Some ((case birthYear of None \<Rightarrow> [] | Some y \<Rightarrow> y) @ ''-01-01'')
                  else None),
               (''firstname'', Some (firstName row)),
               (''lastname'', Some (lastName row)),
               (''gender'', Some (gender row))],
          entries = [],
          handicap = None\<rparr>)"

text \<open>
  The state of the loop of \<open>buildLenexEntriesXml\<close>. \<open>athleteByKey\<close> holds the athlete
  elements under their keys in the order of insertion, which is also their order under
  the ATHLETES element.
\<close>

record BuildState =
  athleteByKey :: "(string \<times> Athlete) list"
  relays :: "Relay list"
  nextAthleteId :: nat
  nextRelayNumber :: nat
  skippedDuringBuild :: nat

definition applyHandicap :: "UniPRow \<Rightarrow> Athlete \<Rightarrow> Athlete" where
  "applyHandicap row athleteRecord =
     (case getHandicapFromClass (birthYearOrClass row) of
        None \<Rightarrow> athleteRecord
      | Some (attribute, level) \<Rightarrow>
          athleteRecord
            \<lparr>handicap :=
               Some (setAttribute (case handicap athleteRecord of None \<Rightarrow> [] | Some h \<Rightarrow> h)
                       attribute level)\<rparr>)"

definition addAthleteEntry ::
  "nat \<Rightarrow> UniPRow \<Rightarrow> LenexEvent \<Rightarrow> BuildState \<Rightarrow> BuildState" where
  "addAthleteEntry currentYear row lenexEvent st =
     (let key = athleteKey currentYear row;
          st1 = (if map_of (athleteByKey st) key = None
                 then st\<lparr>athleteByKey :=
                            athleteByKey st @
                            [(key, createAthleteElement currentYear (nextAthleteId st) row)],
                          nextAthleteId := nextAthleteId st + 1\<rparr>
                 else st)
      in case map_of (athleteByKey st1) key of
           None \<Rightarrow> st1
         | Some athleteRecord \<Rightarrow>
             (let withHandicap = applyHandicap row athleteRecord;
                  withEntry = withHandicap
                    \<lparr>entries := entries withHandicap @ [createEntryElement row lenexEvent]\<rparr>
              in st1\<lparr>athleteByKey := AList.update key withEntry (athleteByKey st1)\<rparr>))"

definition buildStep ::
  "nat \<Rightarrow> (string \<rightharpoonup> LenexEvent list) \<Rightarrow> BuildState \<Rightarrow> UniPRow \<Rightarrow> BuildState" where
  "buildStep currentYear eventsByNumber st row =
     (case findMatchingLenexEvent row eventsByNumber of
        None \<Rightarrow> st\<lparr>skippedDuringBuild := skippedDuringBuild st + 1\<rparr>
      | Some lenexEvent \<Rightarrow>
          if relayCount row > 1
          then st\<lparr>relays := relays st @ [createRelayElement (nextRelayNumber st) row lenexEvent],
                  nextRelayNumber := nextRelayNumber st + 1\<rparr>
          else addAthleteEntry currentYear row lenexEvent st)"

definition initialBuildState :: BuildState where
  "initialBuildState =
     \<lparr>athleteByKey = [], relays = [], nextAthleteId = 1, nextRelayNumber = 1,
      skippedDuringBuild = 0\<rparr>"

definition buildLoop ::
  "nat \<Rightarrow> (string \<rightharpoonup> LenexEvent list) \<Rightarrow> UniPRow list \<Rightarrow> BuildState" where
  "buildLoop currentYear eventsByNumber rs =
     foldl (buildStep currentYear eventsByNumber) initialBuildState rs"

text \<open>
  What \<open>buildLenexEntriesXml\<close> puts under the CLUB element, and its count of skipped rows.
  The surrounding document and its serialisation are not modelled.
\<close>

record Club =
  clubAttributes :: attributes
  athletes :: "Athlete list"
  clubRelays :: "Relay list"
  skipped :: nat

definition buildLenexEntriesXml ::
  "nat \<Rightarrow> string \<Rightarrow> UniPRow list \<Rightarrow> (string \<rightharpoonup> LenexEvent list) \<Rightarrow> Club" where
  "buildLenexEntriesXml currentYear club rs eventsByNumber =
     (let st = buildLoop currentYear eventsByNumber rs
      in \<lparr>clubAttributes =
            setAttributes [] [(''name'', Some (if club = [] then ''Unknown Club'' else club))],
          athletes = map snd (athleteByKey st),
          clubRelays = relays st,
          skipped = skippedDuringBuild st\<rparr>)"

section \<open>The pipeline of the application (App.tsx)\<close>

definition getRowKey :: "UniPRow \<Rightarrow> string" where
  "getRowKey row =
     String_nat (lineNumber row) @ ''-'' @
     (case eventNumber row of None \<Rightarrow> ''x'' | Some n \<Rightarrow> String_nat n) @ ''-'' @
     lastName row @ ''-'' @ firstName row"

definition mergedIssuesByRowKey ::
  "nat \<Rightarrow> UniPRow list \<Rightarrow> LenexMeetSummary option \<Rightarrow> (string \<rightharpoonup> string list)" where
  "mergedIssuesByRowKey currentYear uniPRows lenexSummary =
     foldl (\<lambda>m row.
              m(getRowKey row \<mapsto>
                  mergeIssues (issues row)
                    (validateRowAgainstLenex currentYear row (lenexEventsByNumber lenexSummary)
                       (lenexSummary \<noteq> None))))
       Map.empty uniPRows"

definition effectiveIssues ::
  "nat \<Rightarrow> UniPRow list \<Rightarrow> LenexMeetSummary option \<Rightarrow> UniPRow \<Rightarrow> string list" where
  "effectiveIssues currentYear uniPRows lenexSummary row =
     (case mergedIssuesByRowKey currentYear uniPRows lenexSummary (getRowKey row) of
        None \<Rightarrow> []
      | Some merged \<Rightarrow> merged)"

definition exportableRows ::
  "nat \<Rightarrow> UniPRow list \<Rightarrow> LenexMeetSummary option \<Rightarrow> UniPRow list" where
  "exportableRows currentYear uniPRows lenexSummary =
     filter (\<lambda>row. length (effectiveIssues currentYear uniPRows lenexSummary row) = 0) uniPRows"

text \<open>
  \<open>onDownloadEntriesClick\<close> up to the call of the builder: nothing is built without a
  meet definition or without an exportable row.
\<close>

definition exportEntries ::
  "nat \<Rightarrow> string \<Rightarrow> UniPRow list \<Rightarrow> LenexMeetSummary option \<Rightarrow> Club option" where
  "exportEntries currentYear club uniPRows lenexSummary =
     (if lenexSummary = None then None
      else if length (exportableRows currentYear uniPRows lenexSummary) = 0 then None
      else Some (buildLenexEntriesXml currentYear club
                   (exportableRows currentYear uniPRows lenexSummary)
                   (lenexEventsByNumber lenexSummary)))"

record PipelineResult =
  parsedRows :: "UniPRow list"
  issueLists :: "string list list"
  exported :: "Club option"

text \<open>One run: parse the registration text, validate every row, export.\<close>

definition runPipeline ::
  "nat \<Rightarrow> string \<Rightarrow> LenexMeetSummary option \<Rightarrow> error + PipelineResult" where
  "runPipeline currentYear content lenexSummary =
     (case parseUniP content of
        Inl e \<Rightarrow> Inl e
      | Inr parsed \<Rightarrow>
          Inr \<lparr>parsedRows = rows parsed,
               issueLists = map (effectiveIssues currentYear (rows parsed) lenexSummary)
                              (rows parsed),
               exported = exportEntries currentYear (clubName parsed) (rows parsed)
                            lenexSummary\<rparr>)"

section \<open>Vocabulary of the statements\<close>

text \<open>
  A distance field of the form \<open>R*D\<close>: two runs of digits around a star, with optional
  white space on either side of the star.
\<close>

definition relayForm :: "string \<Rightarrow> string \<Rightarrow> string \<Rightarrow> bool" where
  "relayForm t r d =
     (allDigits r \<and> allDigits d \<and>
      (\<exists>ws1 ws2. list_all isWhiteSpace ws1 \<and> list_all isWhiteSpace ws2 \<and>
                  t = r @ ws1 @ CHR ''*'' # ws2 @ d))"

text \<open>The second field of a line, as the row loop reads it.\<close>

definition distanceField :: "string \<Rightarrow> string" where
  "distanceField line = normalizeField (field (padFields (splitOn CHR '','' line)) 1)"

text \<open>
  An issue raised by the check of the para class against the stroke: it is the only
  message that opens with the words on the class and closes with the expected prefix.
\<close>

definition isParaPrefixIssue :: "string \<Rightarrow> bool" where
  \<open>isParaPrefixIssue m = (prefix ''Invalid para class "'' m \<and> suffix '' class)'' m)\<close>

text \<open>A time of the shape \<open>mm:ss.hh\<close>: two digits, a colon, two digits, a dot, two digits.\<close>

definition isMinSecHundredths :: "string \<Rightarrow> bool" where
  "isMinSecHundredths s =
     (case s of
        [m1, m2, c, s1, s2, p, h1, h2] \<Rightarrow>
          isDigit m1 \<and> isDigit m2 \<and> c = CHR '':'' \<and> isDigit s1 \<and> isDigit s2 \<and>
          p = CHR ''.'' \<and> isDigit h1 \<and> isDigit h2
      | _ \<Rightarrow> False)"

text \<open>An issue of the round check.\<close>

definition isRegistrationIssue :: "string \<Rightarrow> bool" where
  "isRegistrationIssue m = prefix ''Registration for '' m"

text \<open>
  Three small catalogs for the examples. In the first, event 5 exists in the round FIN
  only. In the second, events 5, 7 and 8 are open, and event 6 has two records, one with
  the relay count of an individual 200 m medley and one with its distance, but none with
  both. In the third, event 5 is open to swimmers of at most 20 years and is held in 2030.
\<close>

definition mkEvent ::
  "string \<Rightarrow> string \<Rightarrow> string \<Rightarrow> string \<Rightarrow> int \<Rightarrow> int \<Rightarrow> string \<Rightarrow> AgeGroup list \<Rightarrow> LenexEvent" where
  "mkEvent num ident rnd strk relay dist day groups =
     \<lparr>number = num, eventId = ident, evGender = ''M'', round = rnd, name = [],
      evStroke = strk, evRelayCount = Num relay, evDistance = Num dist,
      sessionDate = day, ageGroups = groups\<rparr>"

definition mkMeet :: "string \<Rightarrow> LenexEvent list \<Rightarrow> LenexMeetSummary" where
  "mkMeet day es =
     \<lparr>meetName = ''Meet'', meetCity = ''Oslo'', nation = ''NOR'', meetCourse = ''LCM'',
      sessions = [\<lparr>sessNumber = ''1'', sessName = ''Day 1'', sessDate = day, events = es\<rparr>],
      totalEvents = length es\<rparr>"

definition finalsOnlyMeet :: LenexMeetSummary where
  "finalsOnlyMeet =
     mkMeet ''2024-06-01'' [mkEvent ''5'' ''105'' ''FIN'' ''FREE'' 1 100 ''2024-06-01'' []]"

definition splitMeet :: LenexMeetSummary where
  "splitMeet =
     mkMeet ''2024-06-01''
       [mkEvent ''5'' ''105'' ''TIM'' ''BREAST'' 1 100 ''2024-06-01'' [],
        mkEvent ''6'' ''106'' ''TIM'' ''MEDLEY'' 1 400 ''2024-06-01'' [],
        mkEvent ''6'' ''206'' ''TIM'' ''MEDLEY'' 4 200 ''2024-06-01'' [],
        mkEvent ''7'' ''107'' ''TIM'' ''BREAST'' 1 200 ''2024-06-01'' [],
        mkEvent ''8'' ''108'' ''TIM'' ''MEDLEY'' 1 200 ''2024-06-01'' []]"

definition youthMeet :: LenexMeetSummary where
  "youthMeet =
     mkMeet ''2030-06-01''
       [mkEvent ''5'' ''105'' ''TIM'' ''FREE'' 1 100 ''2030-06-01''
          [\<lparr>agemin = Num (- 1), agemax = Num 20, agName = ''Youth''\<rparr>]]"

text \<open>
  A row that the build loop turns into an entry of an athlete: it has a winning event and
  is not a relay. The rows of one athlete are those among them with the athlete's key, and
  the athletes' keys are the keys of these rows in the order of first appearance.
\<close>

definition entered :: "(string \<rightharpoonup> LenexEvent list) \<Rightarrow> UniPRow \<Rightarrow> bool" where
  "entered eventsByNumber row =
     (findMatchingLenexEvent row eventsByNumber \<noteq> None \<and> \<not> relayCount row > 1)"

definition rowsOfAthlete ::
  "nat \<Rightarrow> (string \<rightharpoonup> LenexEvent list) \<Rightarrow> string \<Rightarrow> UniPRow list \<Rightarrow> UniPRow list" where
  "rowsOfAthlete currentYear eventsByNumber key rs =
     filter (\<lambda>r. entered eventsByNumber r \<and> athleteKey currentYear r = key) rs"

definition athleteKeys ::
  "nat \<Rightarrow> (string \<rightharpoonup> LenexEvent list) \<Rightarrow> UniPRow list \<Rightarrow> string list" where
  "athleteKeys currentYear eventsByNumber rs =
     arrayFromSet (map (athleteKey currentYear) (filter (entered eventsByNumber) rs))"

text \<open>The entry of a row with a winning event, and the entries of a list of rows.\<close>

definition entryOf :: "(string \<rightharpoonup> LenexEvent list) \<Rightarrow> UniPRow \<Rightarrow> Entry list" where
  "entryOf eventsByNumber row =
     (case findMatchingLenexEvent row eventsByNumber of
        None \<Rightarrow> []
      | Some lenexEvent \<Rightarrow> [createEntryElement row lenexEvent])"

definition entriesOf :: "(string \<rightharpoonup> LenexEvent list) \<Rightarrow> UniPRow list \<Rightarrow> Entry list" where
  "entriesOf eventsByNumber rs = concat (map (entryOf eventsByNumber) rs)"

text \<open>
  The handicap element after a list of rows, each setting the attribute of its own class
  if it has one; and the level that the last row with a given attribute carries.
\<close>

definition handicapStep :: "attributes option \<Rightarrow> UniPRow \<Rightarrow> attributes option" where
  "handicapStep h row =
     (case getHandicapFromClass (birthYearOrClass row) of
        None \<Rightarrow> h
      | Some (attribute, level) \<Rightarrow>
          Some (setAttribute (case h of None \<Rightarrow> [] | Some x \<Rightarrow> x) attribute level))"

definition handicapAfter :: "UniPRow list \<Rightarrow> attributes option" where
  "handicapAfter rs = foldl handicapStep None rs"

definition lastLevel :: "string \<Rightarrow> UniPRow list \<Rightarrow> string option" where
  "lastLevel attribute rs =
     (case filter (\<lambda>r. map_option fst (getHandicapFromClass (birthYearOrClass r)) = Some attribute)
             (rev rs) of
        [] \<Rightarrow> None
      | r # _ \<Rightarrow> map_option snd (getHandicapFromClass (birthYearOrClass r)))"

text \<open>What one row with a winning event does to the element of its athlete.\<close>

definition withRow :: "UniPRow \<Rightarrow> LenexEvent \<Rightarrow> Athlete \<Rightarrow> Athlete" where
  "withRow row lenexEvent a =
     (applyHandicap row a)
       \<lparr>entries := entries (applyHandicap row a) @ [createEntryElement row lenexEvent]\<rparr>"

text \<open>
  Two rows of the same swimmer: equal last name, first name, gender and inferred birth
  year, where a birth year that cannot be inferred counts as the empty string.
\<close>

definition birthYearText :: "nat \<Rightarrow> UniPRow \<Rightarrow> string" where
  "birthYearText currentYear row =
     (case inferBirthYear currentYear row of None \<Rightarrow> [] | Some y \<Rightarrow> y)"

definition sameSwimmer :: "nat \<Rightarrow> UniPRow \<Rightarrow> UniPRow \<Rightarrow> bool" where
  "sameSwimmer currentYear r r' =
     (lastName r = lastName r' \<and> firstName r = firstName r' \<and> gender r = gender r' \<and>
      birthYearText currentYear r = birthYearText currentYear r')"

text \<open>The value of an attribute of an element.\<close>

definition getAttribute :: "attributes \<Rightarrow> string \<Rightarrow> string option" where
  "getAttribute attrs n = map_of attrs n"

text \<open>The attributes of a handicap element that may not exist yet.\<close>

definition attrsOf :: "attributes option \<Rightarrow> attributes" where
  "attrsOf h = (case h of None \<Rightarrow> [] | Some x \<Rightarrow> x)"


section \<open>Properties of the row parser\<close>

subsection \<open>The distance field\<close>

lemma ws_not_digit: "isWhiteSpace c \<Longrightarrow> \<not> isDigit c"
  by (auto simp: isWhiteSpace_def isDigit_def)

lemma star_not_digit: "\<not> isDigit CHR ''*''"
  by (simp add: isDigit_def codeUnit_def)

lemma star_not_ws: "\<not> isWhiteSpace CHR ''*''"
  by (simp add: isWhiteSpace_def codeUnit_def)

lemma digit_not_ws: "isDigit c \<Longrightarrow> \<not> isWhiteSpace c"
  by (auto simp: isWhiteSpace_def isDigit_def)

lemma takeWhile_digit_ws_star:
  "list_all isWhiteSpace ws \<Longrightarrow> takeWhile isDigit (ws @ CHR ''*'' # rest) = []"
  by (cases ws) (auto simp: ws_not_digit star_not_digit)

lemma dropWhile_digit_ws_star:
  "list_all isWhiteSpace ws \<Longrightarrow> dropWhile isDigit (ws @ CHR ''*'' # rest) = ws @ CHR ''*'' # rest"
  by (cases ws) (auto simp: ws_not_digit star_not_digit)

lemma dropWhile_ws_digits:
  "allDigits d \<Longrightarrow> dropWhile isWhiteSpace d = d"
  by (cases d) (auto simp: allDigits_def digit_not_ws)

lemma relayMatch_form:
  assumes "allDigits r" "list_all isWhiteSpace ws1" "list_all isWhiteSpace ws2" "allDigits d"
  shows "relayMatch (r @ ws1 @ CHR ''*'' # ws2 @ d) = Some (r, d)"
proof -
  have r: "\<forall>x\<in>set r. isDigit x" "r \<noteq> []" using assms(1) by (auto simp: allDigits_def list_all_iff)
  have tw: "takeWhile isDigit (r @ ws1 @ CHR ''*'' # ws2 @ d) = r"
    using r assms(2) by (simp add: takeWhile_append2 takeWhile_digit_ws_star)
  have dw: "dropWhile isDigit (r @ ws1 @ CHR ''*'' # ws2 @ d) = ws1 @ CHR ''*'' # ws2 @ d"
    using r assms(2) by (simp add: dropWhile_append2 dropWhile_digit_ws_star)
  have dw2: "dropWhile isWhiteSpace (ws1 @ CHR ''*'' # ws2 @ d) = CHR ''*'' # ws2 @ d"
    using assms(2) by (simp add: dropWhile_append2 list_all_iff star_not_ws)
  have dw3: "dropWhile isWhiteSpace (ws2 @ d) = d"
    using assms(3,4) by (simp add: dropWhile_append2 list_all_iff dropWhile_ws_digits)
  show ?thesis
    unfolding relayMatch_def using r(2) assms(4) by (simp add: tw dw dw2 dw3 Let_def)
qed

lemma relayMatch_SomeD:
  assumes "relayMatch t = Some (r, d)"
  shows "relayForm t r d"
proof -
  let ?r = "takeWhile isDigit t"
  let ?a = "dropWhile isDigit t"
  let ?ws1 = "takeWhile isWhiteSpace ?a"
  let ?b = "dropWhile isWhiteSpace ?a"
  from assms obtain rest where b: "?b = CHR ''*'' # rest" and rne: "?r \<noteq> []"
    and d: "d = dropWhile isWhiteSpace rest" "allDigits d" and r: "r = ?r"
    by (auto simp: relayMatch_def Let_def split: if_splits list.splits)
  have t: "t = ?r @ ?ws1 @ ?b" by simp
  have rest: "rest = takeWhile isWhiteSpace rest @ d" using d by simp
  have "allDigits ?r" using rne by (auto simp: allDigits_def list_all_iff dest: set_takeWhileD)
  moreover have "list_all isWhiteSpace ?ws1" "list_all isWhiteSpace (takeWhile isWhiteSpace rest)"
    by (auto simp: list_all_iff dest: set_takeWhileD)
  moreover have "t = ?r @ ?ws1 @ CHR ''*'' # takeWhile isWhiteSpace rest @ d"
    using t b rest by metis
  ultimately show ?thesis unfolding relayForm_def using d r by blast
qed

lemma relayMatch_iff: "relayMatch t = Some (r, d) \<longleftrightarrow> relayForm t r d"
  using relayMatch_SomeD relayMatch_form unfolding relayForm_def by blast

lemma relayForm_not_allDigits: "relayForm t r d \<Longrightarrow> \<not> allDigits t"
  by (auto simp: relayForm_def allDigits_def star_not_digit)

lemma parseDistance_relay:
  "relayForm (normalizeField v) r d \<Longrightarrow>
   parseDistance v = \<lparr>diRelayCount = Number_digits r, diDistance = Some (Number_digits d), diIssues = []\<rparr>"
  by (simp add: parseDistance_def relayMatch_iff [symmetric])

lemma parseDistance_plain:
  "allDigits (normalizeField v) \<Longrightarrow>
   parseDistance v = \<lparr>diRelayCount = 1, diDistance = Some (Number_digits (normalizeField v)), diIssues = []\<rparr>"
proof -
  assume a: "allDigits (normalizeField v)"
  have "relayMatch (normalizeField v) = None"
  proof (cases "relayMatch (normalizeField v)")
    case (Some p)
    then show ?thesis using relayMatch_SomeD[of "normalizeField v" "fst p" "snd p"] relayForm_not_allDigits a by auto
  qed simp
  then show ?thesis using a by (simp add: parseDistance_def)
qed

lemma parseDistance_other:
  "\<not> allDigits (normalizeField v) \<Longrightarrow> \<forall>r d. \<not> relayForm (normalizeField v) r d \<Longrightarrow>
   parseDistance v = \<lparr>diRelayCount = 1, diDistance = None, diIssues = [''Field 2 (distance) is invalid'']\<rparr>"
proof -
  assume a: "\<not> allDigits (normalizeField v)" and b: "\<forall>r d. \<not> relayForm (normalizeField v) r d"
  have "relayMatch (normalizeField v) = None"
  proof (cases "relayMatch (normalizeField v)")
    case (Some p)
    then show ?thesis using relayMatch_SomeD[of "normalizeField v" "fst p" "snd p"] b by auto
  qed simp
  then show ?thesis using a by (simp add: parseDistance_def)
qed

lemma parseRow_relayCount:
  "relayCount (parseRow i line) = diRelayCount (parseDistance (field (padFields (splitOn CHR '','' line)) 1))"
  by (simp add: parseRow_def Let_def)

lemma parseRow_distance:
  "distance (parseRow i line) = diDistance (parseDistance (field (padFields (splitOn CHR '','' line)) 1))"
  by (simp add: parseRow_def Let_def)

lemma parseRow_issues_prefix:
  "prefix (diIssues (parseDistance (field (padFields (splitOn CHR '','' line)) 1))) (issues (parseRow i line))"
  by (simp add: parseRow_def Let_def)


lemma not_distance_issue_gender:
  "list_all (\<lambda>m. m \<noteq> ''Field 2 (distance) is invalid'') (giIssues (parseGenderAndAgeGroup v))"
  by (simp add: parseGenderAndAgeGroup_def Let_def split: list.splits)

lemma not_distance_issue_birth:
  "list_all (\<lambda>m. m \<noteq> ''Field 2 (distance) is invalid'') (biIssues (parseBirthYearOrClass v b a))"
  by (simp add: parseBirthYearOrClass_def Let_def split: option.splits)

lemma not_distance_issue_masters:
  "list_all (\<lambda>m. m \<noteq> ''Field 2 (distance) is invalid'') (mastersRelayClassIssues b f)"
  by (simp add: mastersRelayClassIssues_def split: list.splits)

lemma not_distance_issue_para:
  "list_all (\<lambda>m. m \<noteq> ''Field 2 (distance) is invalid'') (paraClassIssues b s c k)"
  by (simp add: paraClassIssues_def paraClassIssue_def split: option.splits)

lemma distance_issue_iff:
  "''Field 2 (distance) is invalid'' \<in> set (issues (parseRow i line)) \<longleftrightarrow>
   diIssues (parseDistance (field (padFields (splitOn CHR '','' line)) 1)) \<noteq> []"
proof -
  let ?m = "''Field 2 (distance) is invalid''"
  let ?di = "diIssues (parseDistance (field (padFields (splitOn CHR '','' line)) 1))"
  have "\<exists>rest. issues (parseRow i line) = ?di @ rest \<and> list_all (\<lambda>m. m \<noteq> ?m) rest"
    by (simp add: parseRow_def Let_def not_distance_issue_gender not_distance_issue_birth
        not_distance_issue_masters not_distance_issue_para)
  then obtain rest where r: "issues (parseRow i line) = ?di @ rest" "list_all (\<lambda>m. m \<noteq> ?m) rest"
    by blast
  have d: "?di = [] \<or> ?di = [?m]"
    by (simp add: parseDistance_def Let_def split: option.splits)
  have "?m \<notin> set rest" using r(2) unfolding list_all_iff by blast
  then show ?thesis using r(1) d by auto
qed


text \<open>
  Claim C4, as the code has it. The relay count and the distance of a parsed row are read
  off the second field of the line. A field of the form \<open>R*D\<close> yields relay count \<open>R\<close> and
  distance \<open>D\<close> and no distance issue; a plain run of digits yields relay count 1 and that
  distance; every other field yields relay count 1, no distance and the distance issue.
  The relay count is at least 1 in every case but one: a field \<open>R*D\<close> whose \<open>R\<close> is zero.
\<close>

theorem parseRow_distance_field:
  "(let t = distanceField line; row = parseRow i line in
     (\<forall>r d. relayForm t r d \<longrightarrow>
        relayCount row = Number_digits r \<and> distance row = Some (Number_digits d) \<and>
        ''Field 2 (distance) is invalid'' \<notin> set (issues row)) \<and>
     (allDigits t \<longrightarrow>
        relayCount row = 1 \<and> distance row = Some (Number_digits t) \<and>
        ''Field 2 (distance) is invalid'' \<notin> set (issues row)) \<and>
     (\<not> allDigits t \<and> (\<forall>r d. \<not> relayForm t r d) \<longrightarrow>
        relayCount row = 1 \<and> distance row = None \<and>
        ''Field 2 (distance) is invalid'' \<in> set (issues row)) \<and>
     (1 \<le> relayCount row \<longleftrightarrow> \<not> (\<exists>r d. relayForm t r d \<and> Number_digits r = 0)))"
proof -
  let ?v = "field (padFields (splitOn CHR '','' line)) 1"
  let ?t = "normalizeField ?v"
  let ?row = "parseRow i line"
  let ?m = "''Field 2 (distance) is invalid''"
  have t: "distanceField line = ?t" by (simp add: distanceField_def)
  have c1: "relayCount ?row = Number_digits r \<and> distance ?row = Some (Number_digits d) \<and>
        ?m \<notin> set (issues ?row)" if rf: "relayForm ?t r d" for r d
  proof -
    note pd = parseDistance_relay [OF rf]
    show ?thesis
      unfolding parseRow_relayCount parseRow_distance distance_issue_iff pd by simp
  qed
  have c2: "relayCount ?row = 1 \<and> distance ?row = Some (Number_digits ?t) \<and>
        ?m \<notin> set (issues ?row)" if ad: "allDigits ?t"
  proof -
    note pd = parseDistance_plain [OF ad]
    show ?thesis
      unfolding parseRow_relayCount parseRow_distance distance_issue_iff pd by simp
  qed
  have c3: "relayCount ?row = 1 \<and> distance ?row = None \<and> ?m \<in> set (issues ?row)"
    if nd: "\<not> allDigits ?t" and nr: "\<forall>r d. \<not> relayForm ?t r d"
  proof -
    note pd = parseDistance_other [OF nd nr]
    show ?thesis
      unfolding parseRow_relayCount parseRow_distance distance_issue_iff pd by simp
  qed
  have c4: "1 \<le> relayCount ?row \<longleftrightarrow> \<not> (\<exists>r d. relayForm ?t r d \<and> Number_digits r = 0)"
  proof (cases "relayMatch ?t")
    case (Some p)
    obtain r d where p: "p = (r, d)" by (cases p)
    have m: "relayMatch ?t = Some (r, d)" using Some p by simp
    have rd: "relayForm ?t r d" using m by (rule relayMatch_SomeD)
    have u: "r' = r" if "relayForm ?t r' d'" for r' d'
    proof -
      have "relayMatch ?t = Some (r', d')" using that relayMatch_iff by blast
      then show ?thesis using m by simp
    qed
    have rc: "relayCount ?row = Number_digits r" using c1 [OF rd] by (rule conjunct1)
    show ?thesis
    proof
      assume "1 \<le> relayCount ?row"
      then have nz: "Number_digits r \<noteq> 0" using rc by simp
      show "\<not> (\<exists>r d. relayForm ?t r d \<and> Number_digits r = 0)"
      proof
        assume "\<exists>r d. relayForm ?t r d \<and> Number_digits r = 0"
        then obtain r' d' where h: "relayForm ?t r' d'" "Number_digits r' = 0" by blast
        from u [OF h(1)] h(2) nz show False by simp
      qed
    next
      assume "\<not> (\<exists>r d. relayForm ?t r d \<and> Number_digits r = 0)"
      then have "Number_digits r \<noteq> 0" using rd by auto
      then show "1 \<le> relayCount ?row" using rc by simp
    qed
  next
    case None
    have nr: "\<forall>r d. \<not> relayForm ?t r d"
    proof (intro allI notI)
      fix r d assume "relayForm ?t r d"
      then have "relayMatch ?t = Some (r, d)" using relayMatch_iff by blast
      then show False using None by simp
    qed
    have one: "relayCount ?row = 1"
    proof (cases "allDigits ?t")
      case True
      show ?thesis by (rule conjunct1 [OF c2 [OF True]])
    next
      case False
      show ?thesis by (rule conjunct1 [OF c3 [OF False nr]])
    qed
    have "\<not> (\<exists>r d. relayForm ?t r d \<and> Number_digits r = 0)" using nr by blast
    then show ?thesis using one by simp
  qed
  show ?thesis
    unfolding Let_def t
    apply (rule conjI)
     apply (intro allI impI)
     apply (erule c1)
    apply (rule conjI)
     apply (rule impI)
     apply (erule c2)
    apply (rule conjI)
     apply (rule impI)
     apply (erule conjE)
     apply (erule (1) c3)
    apply (rule c4)
    done
qed


text \<open>The three cases of the theorem at three lines: a relay, an individual, a bad field.\<close>

theorem parseRow_distance_field_witness:
  "relayCount (parseRow 1 ''12,4*50,FR,CityTeam,,,MSR'') = 4 \<and>
   distance (parseRow 1 ''12,4*50,FR,CityTeam,,,MSR'') = Some 50 \<and>
   relayCount (parseRow 1 ''5,100,FR,Doe,John,,M05,2005'') = 1 \<and>
   distance (parseRow 1 ''5,100,FR,Doe,John,,M05,2005'') = Some 100 \<and>
   distance (parseRow 1 ''5,abc,FR,Doe,John,,M05,2005'') = None \<and>
   ''Field 2 (distance) is invalid'' \<in> set (issues (parseRow 1 ''5,abc,FR,Doe,John,,M05,2005''))"
proof -
  have t1: "distanceField ''12,4*50,FR,CityTeam,,,MSR'' = ''4*50''" by code_simp
  have m1: "relayMatch ''4*50'' = Some (''4'', ''50'')" by code_simp
  have f1: "relayForm ''4*50'' ''4'' ''50''"
    using m1 by (rule relayMatch_SomeD)
  have n1: "Number_digits ''4'' = 4" "Number_digits ''50'' = 50" by code_simp+
  have t2: "distanceField ''5,100,FR,Doe,John,,M05,2005'' = ''100''" by code_simp
  have f2: "allDigits ''100''" by code_simp
  have n2: "Number_digits ''100'' = 100" by code_simp
  have t3: "distanceField ''5,abc,FR,Doe,John,,M05,2005'' = ''abc''" by code_simp
  have f3: "\<not> allDigits ''abc''" by code_simp
  have m3: "relayMatch ''abc'' = None" by code_simp
  have g3: "\<forall>r d. \<not> relayForm ''abc'' r d"
    using m3 by (simp add: relayMatch_iff [symmetric])
  note A1 = parseRow_distance_field [of "''12,4*50,FR,CityTeam,,,MSR''" 1, unfolded Let_def t1]
  note A2 = parseRow_distance_field [of "''5,100,FR,Doe,John,,M05,2005''" 1, unfolded Let_def t2]
  note A3 = parseRow_distance_field [of "''5,abc,FR,Doe,John,,M05,2005''" 1, unfolded Let_def t3]
  note B1 = A1 [THEN conjunct1, rule_format, OF f1]
  note B2 = A2 [THEN conjunct2, THEN conjunct1, THEN mp, OF f2]
  note B3 = A3 [THEN conjunct2, THEN conjunct2, THEN conjunct1, THEN mp, OF conjI [OF f3 g3]]
  show ?thesis
    using B1 B2 B3 by (simp only: n1 n2 simp_thms)
qed

text \<open>
  The relay count is not at least 1 for every line: the field \<open>0*50\<close> matches the relay
  pattern and gives relay count 0.
\<close>

theorem relayCount_zero_counterexample:
  "\<not> 1 \<le> relayCount (parseRow 1 ''7,0*50,FR,Doe,John,,M05,2005'')"
  by code_simp

subsection \<open>The para class against the stroke\<close>

lemma filter_none: "list_all (\<lambda>m. \<not> P m) xs \<Longrightarrow> filter P xs = []"
  by (induction xs) auto

lemma suffix_append_long:
  assumes "length s \<le> length zs"
  shows "suffix s (ys @ zs) = suffix s zs"
proof
  assume "suffix s (ys @ zs)"
  then obtain p where p: "ys @ zs = p @ s" by (auto simp: suffix_def)
  then obtain u where "zs = u @ s"
    using assms by (auto simp: append_eq_append_conv2)
  then show "suffix s zs" by (auto simp: suffix_def)
next
  assume "suffix s zs"
  then show "suffix s (ys @ zs)" by (rule suffix_appendI)
qed

lemma not_para_issue_distance:
  "list_all (\<lambda>m. \<not> isParaPrefixIssue m) (diIssues (parseDistance v))"
  by (simp add: parseDistance_def isParaPrefixIssue_def Let_def split: option.splits)

lemma not_para_issue_gender:
  "list_all (\<lambda>m. \<not> isParaPrefixIssue m) (giIssues (parseGenderAndAgeGroup v))"
  by (simp add: parseGenderAndAgeGroup_def isParaPrefixIssue_def Let_def split: list.splits)

lemma not_para_issue_accepted:
  \<open>\<not> isParaPrefixIssue (''Invalid para class "'' @ t @ ''" (accepted: S1-S15, SB1-SB15, SM1-SM15)'')\<close>
proof -
  have \<open>\<not> suffix '' class)'' ((''Invalid para class "'' @ t) @ ''" (accepted: S1-S15, SB1-SB15, SM1-SM15)'')\<close>
    by (subst suffix_append_long) (simp_all add: suffix_to_prefix)
  then show ?thesis by (simp add: isParaPrefixIssue_def)
qed

lemma not_para_issue_missing:
  "\<not> isParaPrefixIssue ''Field 8 (birth year/class) is missing''"
  by (simp add: isParaPrefixIssue_def)

lemma biIssues_cases:
  \<open>biIssues (parseBirthYearOrClass v b a) = [] \<or>
   biIssues (parseBirthYearOrClass v b a) = [''Field 8 (birth year/class) is missing''] \<or>
   biIssues (parseBirthYearOrClass v b a) =
     [''Invalid para class "'' @ toUpperCase (normalizeField v) @
      ''" (accepted: S1-S15, SB1-SB15, SM1-SM15)'']\<close>
  by (simp add: parseBirthYearOrClass_def Let_def split: option.splits)

lemma not_para_issue_birth:
  "list_all (\<lambda>m. \<not> isParaPrefixIssue m) (biIssues (parseBirthYearOrClass v b a))"
  using biIssues_cases [of v b a]
  by (elim disjE) (simp_all only: list.pred_inject not_para_issue_accepted not_para_issue_missing simp_thms)

lemma not_para_issue_masters:
  "list_all (\<lambda>m. \<not> isParaPrefixIssue m) (mastersRelayClassIssues b f)"
  by (simp add: mastersRelayClassIssues_def isParaPrefixIssue_def split: list.splits)

lemma para_issue_isParaPrefixIssue: "isParaPrefixIssue (paraClassIssue c k q)"
proof -
  have "suffix '' class)'' ((''Invalid para class \"'' @ c @ ''\" for stroke '' @ k @ '' (expected '' @ q) @ '' class)'')"
    by (rule suffixI) simp
  then show ?thesis by (simp add: isParaPrefixIssue_def paraClassIssue_def)
qed


lemma filter_para_issues:
  "filter isParaPrefixIssue (issues (parseRow i line)) =
   filter isParaPrefixIssue
     (paraClassIssues (relayCount (parseRow i line) > 1) (stroke (parseRow i line))
        (strokeCode (parseRow i line)) (birthYearOrClass (parseRow i line)))"
  by (simp add: parseRow_def Let_def
      filter_none [OF not_para_issue_distance] filter_none [OF not_para_issue_gender]
      filter_none [OF not_para_issue_birth] filter_none [OF not_para_issue_masters]
      isParaPrefixIssue_def)

lemma expectedPrefix_nonempty: "expectedPrefixByStroke code = Some q \<Longrightarrow> q \<noteq> []"
  by (auto simp: expectedPrefixByStroke_def split: if_splits)

lemma paraClassIssues_value:
  assumes "\<not> isRelay" "strokeName \<noteq> []" "parseParaClassPrefix cls = Some p"
  shows "paraClassIssues isRelay strokeName code cls =
         (case expectedPrefixByStroke code of
            None \<Rightarrow> []
          | Some q \<Rightarrow> if p = q then [] else [paraClassIssue cls code q])"
  using assms expectedPrefix_nonempty [of code]
  by (auto simp: paraClassIssues_def split: option.splits)

lemma strokeMap_cases:
  assumes "strokeMap code = Some s"
  shows "(code = ''FR'' \<and> s = ''FREE'') \<or> (code = ''BR'' \<and> s = ''BREAST'') \<or>
         (code = ''RY'' \<and> s = ''BACK'') \<or> (code = ''BU'' \<and> s = ''FLY'') \<or>
         (code = ''IM'' \<and> s = ''MEDLEY'') \<or> (code = ''LM'' \<and> s = ''MEDLEY'')"
  using assms by (simp add: strokeMap_def split: if_splits)

lemma parseRow_stroke:
  "stroke (parseRow i line) =
   (case strokeMap (strokeCode (parseRow i line)) of None \<Rightarrow> [] | Some x \<Rightarrow> x)"
  by (simp add: parseRow_def Let_def)

lemma expected_by_name:
  assumes "stroke (parseRow i line) \<noteq> []"
  shows "(stroke (parseRow i line) \<in> {''FREE'', ''BACK'', ''FLY''} \<longrightarrow>
            expectedPrefixByStroke (strokeCode (parseRow i line)) = Some ''S'') \<and>
         (stroke (parseRow i line) = ''BREAST'' \<longrightarrow>
            expectedPrefixByStroke (strokeCode (parseRow i line)) = Some ''SB'') \<and>
         (stroke (parseRow i line) = ''MEDLEY'' \<longrightarrow>
            (strokeCode (parseRow i line) = ''IM'' \<and>
             expectedPrefixByStroke (strokeCode (parseRow i line)) = Some ''SM'') \<or>
            (strokeCode (parseRow i line) = ''LM'' \<and>
             expectedPrefixByStroke (strokeCode (parseRow i line)) = None))"
proof -
  obtain s where s: "strokeMap (strokeCode (parseRow i line)) = Some s"
    and e: "stroke (parseRow i line) = s"
    using assms parseRow_stroke [of i line] by (cases "strokeMap (strokeCode (parseRow i line))") auto
  show ?thesis
    using strokeMap_cases [OF s] unfolding e
    by (elim disjE conjE) (simp_all add: expectedPrefixByStroke_def)
qed

text \<open>
  Claim C3, as the code has it. Take a row that is not a relay, whose stroke code resolves
  to a stroke name and whose class is a valid para class with prefix \<open>p\<close>. The expected
  prefix is looked up under the stroke code: S for FR, RY and BU, SB for BR, SM for IM. When
  it differs from \<open>p\<close> the row carries exactly one issue of the prefix check, naming the
  expected prefix; when it equals \<open>p\<close> the row carries none. Read by stroke name this is S
  for FREE, BACK and FLY and SB for BREAST; MEDLEY expects SM under the code IM only: the
  code LM has no entry, and a row with it carries no issue of the prefix check.
\<close>

theorem parseRow_para_prefix:
  assumes row: "row = parseRow i line"
    and individual: "\<not> relayCount row > 1"
    and resolved: "stroke row \<noteq> []"
    and para: "parseParaClassPrefix (birthYearOrClass row) = Some p"
  shows "filter isParaPrefixIssue (issues row) =
           (case expectedPrefixByStroke (strokeCode row) of
              None \<Rightarrow> []
            | Some q \<Rightarrow>
                if p = q then [] else [paraClassIssue (birthYearOrClass row) (strokeCode row) q]) \<and>
         (stroke row \<in> {''FREE'', ''BACK'', ''FLY''} \<longrightarrow>
            expectedPrefixByStroke (strokeCode row) = Some ''S'') \<and>
         (stroke row = ''BREAST'' \<longrightarrow> expectedPrefixByStroke (strokeCode row) = Some ''SB'') \<and>
         (stroke row = ''MEDLEY'' \<longrightarrow>
            (strokeCode row = ''IM'' \<and> expectedPrefixByStroke (strokeCode row) = Some ''SM'') \<or>
            (strokeCode row = ''LM'' \<and> expectedPrefixByStroke (strokeCode row) = None))"
proof (rule conjI)
  have "filter isParaPrefixIssue (issues row) =
        filter isParaPrefixIssue
          (paraClassIssues (relayCount row > 1) (stroke row) (strokeCode row) (birthYearOrClass row))"
    unfolding row by (rule filter_para_issues)
  also have "\<dots> = filter isParaPrefixIssue
      (case expectedPrefixByStroke (strokeCode row) of
         None \<Rightarrow> []
       | Some q \<Rightarrow>
           if p = q then [] else [paraClassIssue (birthYearOrClass row) (strokeCode row) q])"
    by (simp only: paraClassIssues_value [OF individual resolved para])
  also have "\<dots> =
      (case expectedPrefixByStroke (strokeCode row) of
         None \<Rightarrow> []
       | Some q \<Rightarrow>
           if p = q then [] else [paraClassIssue (birthYearOrClass row) (strokeCode row) q])"
    by (simp add: para_issue_isParaPrefixIssue split: option.splits)
  finally show "filter isParaPrefixIssue (issues row) =
           (case expectedPrefixByStroke (strokeCode row) of
              None \<Rightarrow> []
            | Some q \<Rightarrow>
                if p = q then [] else [paraClassIssue (birthYearOrClass row) (strokeCode row) q])" .
next
  show "(stroke row \<in> {''FREE'', ''BACK'', ''FLY''} \<longrightarrow>
            expectedPrefixByStroke (strokeCode row) = Some ''S'') \<and>
         (stroke row = ''BREAST'' \<longrightarrow> expectedPrefixByStroke (strokeCode row) = Some ''SB'') \<and>
         (stroke row = ''MEDLEY'' \<longrightarrow>
            (strokeCode row = ''IM'' \<and> expectedPrefixByStroke (strokeCode row) = Some ''SM'') \<or>
            (strokeCode row = ''LM'' \<and> expectedPrefixByStroke (strokeCode row) = None))"
    using resolved unfolding row by (rule expected_by_name)
qed

text \<open>Class SB7: with stroke FR one issue that expects S, with stroke BR none.\<close>

theorem parseRow_para_prefix_witness:
  \<open>filter isParaPrefixIssue (issues (parseRow 1 ''5,100,FR,Doe,John,,M05,SB7'')) =
     [''Invalid para class "SB7" for stroke FR (expected S class)''] \<and>
   filter isParaPrefixIssue (issues (parseRow 1 ''5,100,BR,Doe,John,,M05,SB7'')) = []\<close>
proof -
  have a: "\<not> relayCount (parseRow 1 ''5,100,FR,Doe,John,,M05,SB7'') > 1"
    "stroke (parseRow 1 ''5,100,FR,Doe,John,,M05,SB7'') \<noteq> []"
    "parseParaClassPrefix (birthYearOrClass (parseRow 1 ''5,100,FR,Doe,John,,M05,SB7'')) = Some ''SB''"
    by code_simp+
  have b: "\<not> relayCount (parseRow 1 ''5,100,BR,Doe,John,,M05,SB7'') > 1"
    "stroke (parseRow 1 ''5,100,BR,Doe,John,,M05,SB7'') \<noteq> []"
    "parseParaClassPrefix (birthYearOrClass (parseRow 1 ''5,100,BR,Doe,John,,M05,SB7'')) = Some ''SB''"
    by code_simp+
  have ea: "expectedPrefixByStroke (strokeCode (parseRow 1 ''5,100,FR,Doe,John,,M05,SB7'')) = Some ''S''"
    by code_simp
  have eb: "expectedPrefixByStroke (strokeCode (parseRow 1 ''5,100,BR,Doe,John,,M05,SB7'')) = Some ''SB''"
    by code_simp
  have ma: \<open>paraClassIssue (birthYearOrClass (parseRow 1 ''5,100,FR,Doe,John,,M05,SB7''))
              (strokeCode (parseRow 1 ''5,100,FR,Doe,John,,M05,SB7'')) ''S'' =
            ''Invalid para class "SB7" for stroke FR (expected S class)''\<close>
    by code_simp
  note A = parseRow_para_prefix [OF refl a, THEN conjunct1, unfolded ea]
  note B = parseRow_para_prefix [OF refl b, THEN conjunct1, unfolded eb]
  show ?thesis using A B ma by simp
qed

text \<open>
  The expectation for MEDLEY does not reach every code that resolves to it: an individual
  row with code LM and class S5 is a MEDLEY row with prefix S and has no issue at all.
\<close>

theorem medley_relay_code_counterexample:
  "\<not> relayCount (parseRow 1 ''5,100,LM,Doe,John,,M05,S5'') > 1 \<and>
   stroke (parseRow 1 ''5,100,LM,Doe,John,,M05,S5'') = ''MEDLEY'' \<and>
   parseParaClassPrefix (birthYearOrClass (parseRow 1 ''5,100,LM,Doe,John,,M05,S5'')) = Some ''S'' \<and>
   issues (parseRow 1 ''5,100,LM,Doe,John,,M05,S5'') = []"
  by code_simp

subsection \<open>Failure of the parser and the issues of a row\<close>


















































subsection \<open>The entry time\<close>

lemma length_splitOn: "length (splitOn d s) = Suc (count_list s d)"
  by (induction s) (auto split: list.splits)

lemma dropWhile_id: "s = [] \<or> \<not> P (hd s) \<Longrightarrow> dropWhile P s = s"
  by (cases s) auto

lemma trim_ends:
  "trim s = [] \<or> (\<not> isWhiteSpace (hd (trim s)) \<and> \<not> isWhiteSpace (last (trim s)))"
proof -
  let ?u = "dropWhile isWhiteSpace s"
  let ?v = "dropWhile isWhiteSpace (rev ?u)"
  have t: "trim s = rev ?v" by (simp add: trim_def)
  show ?thesis
  proof (cases "?v = []")
    case True
    then show ?thesis by (simp add: t)
  next
    case False
    have hv: "\<not> isWhiteSpace (hd ?v)" using False by (rule hd_dropWhile)
    have "?u = rev (takeWhile isWhiteSpace (rev ?u) @ ?v)"
      by (simp only: takeWhile_dropWhile_id rev_rev_ident)
    then have u: "?u = rev ?v @ rev (takeWhile isWhiteSpace (rev ?u))"
      by (simp only: rev_append)
    have une: "?u \<noteq> []"
    proof
      assume e: "?u = []"
      have "?v = []" unfolding e by simp
      then show False using False by contradiction
    qed
    have "hd ?u = hd (rev ?v)" using False by (subst u) simp
    moreover have "\<not> isWhiteSpace (hd ?u)" using une by (rule hd_dropWhile)
    ultimately have "\<not> isWhiteSpace (hd (rev ?v))" by simp
    moreover have "last (rev ?v) = hd ?v" using False by (simp add: last_rev)
    ultimately show ?thesis using hv by (simp add: t)
  qed
qed

lemma trim_fixed:
  assumes "s = [] \<or> (\<not> isWhiteSpace (hd s) \<and> \<not> isWhiteSpace (last s))"
  shows "trim s = s"
proof (cases "s = []")
  case True
  then show ?thesis by (simp add: trim_def)
next
  case False
  then have h: "\<not> isWhiteSpace (hd s)" "\<not> isWhiteSpace (last s)" using assms by auto
  have 1: "dropWhile isWhiteSpace s = s" using h(1) by (simp add: dropWhile_id)
  have "hd (rev s) = last s" using False by (simp add: hd_rev)
  then have 2: "dropWhile isWhiteSpace (rev s) = rev s" using h(2) by (simp add: dropWhile_id)
  show ?thesis by (simp add: trim_def 1 2)
qed

lemma trim_idem: "trim (trim s) = trim s"
  using trim_ends [of s] by (rule trim_fixed)

lemma toLenexEntryTime_count:
  "toLenexEntryTime v =
     (case v of
        None \<Rightarrow> None
      | Some s \<Rightarrow>
          if s = [] then None
          else if count_list (trim s) CHR '':'' = 1 then Some (''00:'' @ trim s)
          else if count_list (trim s) CHR '':'' = 2 then Some (trim s)
          else None)"
  by (simp add: toLenexEntryTime_def Let_def length_splitOn split: option.splits)

lemma digit_not_colon: "isDigit c \<Longrightarrow> c \<noteq> CHR '':''"
  by (auto simp: isDigit_def codeUnit_def)

lemma minSec_shape:
  assumes "isMinSecHundredths s"
  shows "count_list s CHR '':'' = 1 \<and> trim s = s \<and> s \<noteq> []"
proof -
  from assms obtain m1 m2 s1 s2 h1 h2 where
    s: "s = [m1, m2, CHR '':'', s1, s2, CHR ''.'', h1, h2]"
    and d: "isDigit m1" "isDigit m2" "isDigit s1" "isDigit s2" "isDigit h1" "isDigit h2"
    by (auto simp: isMinSecHundredths_def split: list.splits)
  have c: "count_list s CHR '':'' = 1"
    using d by (auto simp: s dest: digit_not_colon)
  have "trim s = s"
    by (rule trim_fixed) (simp add: s d digit_not_ws)
  then show ?thesis using c s by simp
qed

lemma qualificationTime_trimmed:
  "qualificationTime (parseRow i line) = Some s \<Longrightarrow> trim s = s"
  by (auto simp: parseRow_def Let_def orNull_def normalizeField_def trim_idem split: if_splits)

text \<open>
  Claim C6, as the code has it. An absent or empty value gives no entry time. Otherwise the
  value is trimmed and its colons are counted: exactly one colon, the value is padded with
  \<open>00:\<close>; exactly two, it is passed through; any other count, no entry time. A value of
  the shape \<open>mm:ss.hh\<close> has one colon and is padded. The time of a parsed row is already
  trimmed, so with two colons it passes through unchanged.
\<close>

theorem toLenexEntryTime_by_colons:
  "toLenexEntryTime None = None \<and> toLenexEntryTime (Some []) = None \<and>
   (s \<noteq> [] \<and> count_list (trim s) CHR '':'' = 1 \<longrightarrow>
      toLenexEntryTime (Some s) = Some (''00:'' @ trim s)) \<and>
   (s \<noteq> [] \<and> count_list (trim s) CHR '':'' = 2 \<longrightarrow> toLenexEntryTime (Some s) = Some (trim s)) \<and>
   (count_list (trim s) CHR '':'' \<noteq> 1 \<and> count_list (trim s) CHR '':'' \<noteq> 2 \<longrightarrow>
      toLenexEntryTime (Some s) = None) \<and>
   (isMinSecHundredths s \<longrightarrow> toLenexEntryTime (Some s) = Some (''00:'' @ s)) \<and>
   (qualificationTime (parseRow i line) = Some s \<longrightarrow> trim s = s)"
proof (intro conjI impI)
  show "toLenexEntryTime None = None" by (simp add: toLenexEntryTime_count)
  show "toLenexEntryTime (Some []) = None" by (simp add: toLenexEntryTime_count)
  show "toLenexEntryTime (Some s) = Some (''00:'' @ trim s)"
    if "s \<noteq> [] \<and> count_list (trim s) CHR '':'' = 1"
    using that by (simp add: toLenexEntryTime_count)
  show "toLenexEntryTime (Some s) = Some (trim s)"
    if "s \<noteq> [] \<and> count_list (trim s) CHR '':'' = 2"
    using that by (simp add: toLenexEntryTime_count)
  show "toLenexEntryTime (Some s) = None"
    if "count_list (trim s) CHR '':'' \<noteq> 1 \<and> count_list (trim s) CHR '':'' \<noteq> 2"
    using that by (simp add: toLenexEntryTime_count)
  show "toLenexEntryTime (Some s) = Some (''00:'' @ s)" if "isMinSecHundredths s"
    using minSec_shape [OF that] by (simp add: toLenexEntryTime_count)
  show "trim s = s" if "qualificationTime (parseRow i line) = Some s"
    using that by (rule qualificationTime_trimmed)
qed

text \<open>A time in minutes, one with hours, and a value without a colon.\<close>

theorem toLenexEntryTime_by_colons_witness:
  "toLenexEntryTime (Some ''01:02.33'') = Some ''00:01:02.33'' \<and>
   toLenexEntryTime (Some ''1:01:02.33'') = Some ''1:01:02.33'' \<and>
   toLenexEntryTime (Some ''62.33'') = None"
proof -
  have a: "isMinSecHundredths ''01:02.33''" by code_simp
  have b: "''1:01:02.33'' \<noteq> [] \<and> count_list (trim ''1:01:02.33'') CHR '':'' = 2" by code_simp
  have bt: "trim ''1:01:02.33'' = ''1:01:02.33''" by code_simp
  have c: "count_list (trim ''62.33'') CHR '':'' \<noteq> 1 \<and> count_list (trim ''62.33'') CHR '':'' \<noteq> 2"
    by code_simp
  note T1 = toLenexEntryTime_by_colons [of "''01:02.33''" 0 "[]"]
  note T2 = toLenexEntryTime_by_colons [of "''1:01:02.33''" 0 "[]"]
  note T3 = toLenexEntryTime_by_colons [of "''62.33''" 0 "[]"]
  have 1: "toLenexEntryTime (Some ''01:02.33'') = Some (''00:'' @ ''01:02.33'')"
    using T1 a by blast
  have 2: "toLenexEntryTime (Some ''1:01:02.33'') = Some (trim ''1:01:02.33'')"
    using T2 b by blast
  have 3: "toLenexEntryTime (Some ''62.33'') = None"
    using T3 c by blast
  show ?thesis using 1 2 3 bt by simp
qed

text \<open>
  A value that is neither of the shape \<open>mm:ss.hh\<close> nor holds two colons can still get an
  entry time: one colon is enough.
\<close>

theorem one_colon_counterexample:
  "\<not> isMinSecHundredths ''a:b'' \<and> count_list ''a:b'' CHR '':'' \<noteq> 2 \<and>
   qualificationTime (parseRow 1 ''5,100,FR,Doe,John,,M05,2005,a:b'') = Some ''a:b'' \<and>
   toLenexEntryTime (Some ''a:b'') = Some ''00:a:b''"
  by code_simp

section \<open>Properties of the birth year\<close>

lemma Number_two_digits:
  assumes "length yy = 2" "list_all isDigit yy"
  shows "Number_digits yy < 100"
proof -
  obtain a b where yy: "yy = [a, b]"
    using assms(1) by (cases yy; cases "tl yy") auto
  have "codeUnit a - 48 \<le> 9" "codeUnit b - 48 \<le> 9"
    using assms(2) by (auto simp: yy isDigit_def)
  then show ?thesis by (simp add: yy Number_digits_def)
qed

lemma inferFullYear_value:
  assumes "length yy = 2" "list_all isDigit yy"
  shows "inferFullYearFromAgeGroup cy (''Born YY='' @ yy) =
         Some (String_nat (if Number_digits yy \<le> cy mod 100 then 2000 + Number_digits yy
                           else 1900 + Number_digits yy))"
  using assms by (simp add: inferFullYearFromAgeGroup_def Let_def)

lemma marker_recorded:
  assumes "length yy = 2" "list_all isDigit yy" "toUpperCase (normalizeField v) = g # yy"
  shows "giAgeGroupCode (parseGenderAndAgeGroup v) = ''Born YY='' @ yy"
  using assms by (simp add: parseGenderAndAgeGroup_def Let_def)

text \<open>
  Claim C7, as the code has it. A gender+class field whose class part is two digits \<open>YY\<close>
  is recorded as the age-group code \<open>Born YY=YY\<close>. From that code the year \<open>2000 + YY\<close> is
  inferred when \<open>YY\<close> does not exceed the last two digits of the current year, and
  \<open>1900 + YY\<close> otherwise; it is the birth year of the row unless the row states a
  four-digit year itself. While the current year lies in 2000 to 2099 these are the current
  century and the one before.
\<close>

theorem inferFullYear_two_digit_marker:
  assumes "length yy = 2" and "list_all isDigit yy"
  shows "(toUpperCase (normalizeField v) = g # yy \<longrightarrow>
            giAgeGroupCode (parseGenderAndAgeGroup v) = ''Born YY='' @ yy) \<and>
         inferFullYearFromAgeGroup currentYear (''Born YY='' @ yy) =
           Some (String_nat (if Number_digits yy \<le> currentYear mod 100
                             then 2000 + Number_digits yy else 1900 + Number_digits yy)) \<and>
         (ageGroupCode row = ''Born YY='' @ yy \<and> \<not> fourDigits (birthYearOrClass row) \<longrightarrow>
            inferBirthYear currentYear row =
              Some (String_nat (if Number_digits yy \<le> currentYear mod 100
                                then 2000 + Number_digits yy else 1900 + Number_digits yy))) \<and>
         (2000 \<le> currentYear \<and> currentYear < 2100 \<longrightarrow>
            (if Number_digits yy \<le> currentYear mod 100
             then (2000 + Number_digits yy) div 100 = currentYear div 100
             else (1900 + Number_digits yy) div 100 + 1 = currentYear div 100))"
proof (intro conjI impI)
  show "giAgeGroupCode (parseGenderAndAgeGroup v) = ''Born YY='' @ yy"
    if "toUpperCase (normalizeField v) = g # yy"
    using assms that by (rule marker_recorded)
  show "inferFullYearFromAgeGroup currentYear (''Born YY='' @ yy) =
           Some (String_nat (if Number_digits yy \<le> currentYear mod 100
                             then 2000 + Number_digits yy else 1900 + Number_digits yy))"
    using assms by (rule inferFullYear_value)
  show "inferBirthYear currentYear row =
              Some (String_nat (if Number_digits yy \<le> currentYear mod 100
                                then 2000 + Number_digits yy else 1900 + Number_digits yy))"
    if "ageGroupCode row = ''Born YY='' @ yy \<and> \<not> fourDigits (birthYearOrClass row)"
    using that inferFullYear_value [OF assms, of currentYear] by (simp add: inferBirthYear_def)
  show "if Number_digits yy \<le> currentYear mod 100
        then (2000 + Number_digits yy) div 100 = currentYear div 100
        else (1900 + Number_digits yy) div 100 + 1 = currentYear div 100"
    if "2000 \<le> currentYear \<and> currentYear < 2100"
  proof -
    have n: "Number_digits yy < 100" using assms by (rule Number_two_digits)
    have c: "currentYear div 100 = 20" using that by linarith
    have lo: "(2000 + Number_digits yy) div 100 = 20" using n by simp
    have hi: "(1900 + Number_digits yy) div 100 + 1 = 20" using n by simp
    show ?thesis unfolding c using lo hi by (simp only: if_cancel)
  qed
qed

text \<open>
  The field \<open>M65\<close> read in 2024: gender M, age-group code \<open>Born YY=65\<close>, birth year 1965.
\<close>

theorem inferFullYear_two_digit_marker_witness:
  "giGender (parseGenderAndAgeGroup (Some ''M65'')) = ''M'' \<and>
   giAgeGroupCode (parseGenderAndAgeGroup (Some ''M65'')) = ''Born YY=65'' \<and>
   inferFullYearFromAgeGroup 2024 ''Born YY=65'' = Some ''1965'' \<and>
   1965 div 100 + 1 = (2024::nat) div 100"
proof -
  have a: "length ''65'' = 2" "list_all isDigit ''65''" by code_simp+
  have u: "toUpperCase (normalizeField (Some ''M65'')) = CHR ''M'' # ''65''" by code_simp
  have n: "Number_digits ''65'' = 65" by code_simp
  have s: "String_nat 1965 = ''1965''" by code_simp
  have g: "giGender (parseGenderAndAgeGroup (Some ''M65'')) = ''M''" by code_simp
  note T = inferFullYear_two_digit_marker [OF a, of "Some ''M65''" "CHR ''M''" 2024]
  have 1: "giAgeGroupCode (parseGenderAndAgeGroup (Some ''M65'')) = ''Born YY='' @ ''65''"
    using T [THEN conjunct1] u by (rule mp)
  have 2: "inferFullYearFromAgeGroup 2024 (''Born YY='' @ ''65'') = Some ''1965''"
    using T [THEN conjunct2, THEN conjunct1] by (simp add: n s)
  show ?thesis using 1 2 g by simp
qed

text \<open>
  In the year 2105 the marker 05 does not exceed the last two digits of the year, and the
  inferred year is 2005: not a year of the current century.
\<close>

theorem century_counterexample:
  "giAgeGroupCode (parseGenderAndAgeGroup (Some ''M05'')) = ''Born YY=05'' \<and>
   Number_digits ''05'' \<le> 2105 mod 100 \<and>
   inferFullYearFromAgeGroup 2105 ''Born YY=05'' = Some ''2005'' \<and>
   (2005::nat) div 100 \<noteq> 2105 div 100"
  by code_simp

section \<open>Properties of the cross-validation\<close>

lemma foldl_addEvent:
  "foldl addEvent m es k =
     (if filter (\<lambda>e. number e = k) es = [] then m k
      else Some ((case m k of None \<Rightarrow> [] | Some existing \<Rightarrow> existing) @
                 filter (\<lambda>e. number e = k) es))"
proof (induction es arbitrary: m)
  case Nil
  then show ?case by simp
next
  case (Cons e es)
  have step: "foldl addEvent m (e # es) k = foldl addEvent (addEvent m e) es k" by simp
  show ?case
    unfolding step Cons.IH by (simp add: addEvent_def)
qed

lemma lenexEventsByNumber_lookup:
  "candidatesFor (lenexEventsByNumber lenexSummary) n =
     (case lenexSummary of
        None \<Rightarrow> []
      | Some summary \<Rightarrow>
          filter (\<lambda>e. number e = String_nat n) (concat (map events (sessions summary))))"
  by (simp add: candidatesFor_def lenexEventsByNumber_def foldl_addEvent split: option.splits)

text \<open>
  Claim C5. When the row has an event number and no event of the catalog carries that
  number, the validator returns the single issue \<open>Invalid event\<close> and nothing else.
\<close>

theorem validate_unknown_event:
  assumes "eventNumber row = Some n"
    and "\<forall>e \<in> set (concat (map events (sessions summary))). number e \<noteq> String_nat n"
  shows "validateRowAgainstLenex currentYear row (lenexEventsByNumber (Some summary))
           (Some summary \<noteq> None) = [''Invalid event'']"
proof -
  have "filter (\<lambda>e. number e = String_nat n) (concat (map events (sessions summary))) = []"
    using assms(2) by (simp only: filter_empty_conv)
  then have "candidatesFor (lenexEventsByNumber (Some summary)) n = []"
    by (simp add: lenexEventsByNumber_lookup)
  then show ?thesis
    using assms(1) by (simp add: validateRowAgainstLenex_def)
qed

text \<open>Event 7 is not in a catalog that holds event 5 only.\<close>

theorem validate_unknown_event_witness:
  "validateRowAgainstLenex 2024 (parseRow 1 ''7,100,FR,Doe,John,,M05,2005'')
     (lenexEventsByNumber (Some finalsOnlyMeet)) (Some finalsOnlyMeet \<noteq> None) = [''Invalid event'']"
proof -
  have a: "eventNumber (parseRow 1 ''7,100,FR,Doe,John,,M05,2005'') = Some 7" by code_simp
  have b: "\<forall>e \<in> set (concat (map events (sessions finalsOnlyMeet))). number e \<noteq> String_nat 7"
    by code_simp
  show ?thesis using a b by (rule validate_unknown_event)
qed

subsection \<open>Forbidden rounds\<close>

lemma set_arrayFromSet: "set (arrayFromSet xs) = set xs"
  by (simp add: arrayFromSet_def)

lemma distinct_arrayFromSet: "distinct (arrayFromSet xs)"
  by (simp add: arrayFromSet_def)

lemma registrationIssues_forbidden:
  assumes "\<forall>e \<in> set cs. round e \<in> forbiddenRegistrationRounds"
  shows "registrationIssues cs = map (\<lambda>r. ''Registration for '' @ r) (arrayFromSet (map round cs))"
proof -
  have 1: "\<not> list_ex roundAllowed cs"
    using assms by (simp add: list_ex_iff roundAllowed_def)
  have "\<forall>r \<in> set (arrayFromSet (map round cs)). r \<in> forbiddenRegistrationRounds"
    unfolding set_arrayFromSet using assms by auto
  then have 2: "filter (\<lambda>r. r \<in> forbiddenRegistrationRounds) (arrayFromSet (map round cs)) =
             arrayFromSet (map round cs)"
    by (simp only: filter_id_conv)
  show ?thesis by (simp add: registrationIssues_def 1 2)
qed

lemma filter_registration_map:
  "filter isRegistrationIssue (map (\<lambda>r. ''Registration for '' @ r) rs) =
   map (\<lambda>r. ''Registration for '' @ r) rs"
  by (induction rs) (simp_all add: isRegistrationIssue_def)

lemma junior_not_registration:
  "list_all (\<lambda>m. \<not> isRegistrationIssue m) (juniorRelayIssues row cs)"
  by (simp add: juniorRelayIssues_def isRegistrationIssue_def)

lemma age_not_registration:
  "list_all (\<lambda>m. \<not> isRegistrationIssue m) (ageIssues currentYear row n cs)"
  by (simp add: ageIssues_def isRegistrationIssue_def Let_def split: option.splits list.splits)

lemma basic_not_registration:
  "\<not> isRegistrationIssue ''Invalid event''" "\<not> isRegistrationIssue ''Invalid length''"
  "\<not> isRegistrationIssue ''Invalid distance''" "\<not> isRegistrationIssue ''Invalid style''"
  "\<not> isRegistrationIssue ''Invalid gender''"
  by (simp_all add: isRegistrationIssue_def)

lemma compatibleCandidates_Nil: "compatibleCandidates row [] = []"
  by (simp add: compatibleCandidates_def)

lemma validate_registration_filter:
  assumes "eventNumber row = Some n"
  shows "filter isRegistrationIssue (validateRowAgainstLenex currentYear row eventsByNumber True) =
         (let cs = compatibleCandidates row (candidatesFor eventsByNumber n)
          in if cs = [] then [] else filter isRegistrationIssue (registrationIssues cs))"
  using assms
  by (simp add: validateRowAgainstLenex_def Let_def basic_not_registration
      compatibleCandidates_Nil
      filter_none [OF junior_not_registration] filter_none [OF age_not_registration])

lemma findMatching_None:
  assumes "\<forall>e \<in> set (compatibleCandidates row (candidatesFor eventsByNumber n)).
             round e \<in> forbiddenRegistrationRounds"
    and "eventNumber row = Some n"
  shows "findMatchingLenexEvent row eventsByNumber = None"
proof -
  have "\<not> (roundAllowed e \<and> relayMatches row e \<and> distanceMatches row e \<and>
            strokeMatches row e \<and> genderMatches row e)"
    if "e \<in> set (candidatesFor eventsByNumber n)" for e
    using assms(1) that by (auto simp: compatibleCandidates_def compatible_def roundAllowed_def)
  then show ?thesis
    using assms(2) by (simp add: findMatchingLenexEvent_def find_None_iff)
qed


lemma candidatesFor_empty: "candidatesFor (lenexEventsByNumber None) n = []"
  by (simp add: candidatesFor_def lenexEventsByNumber_def)

lemma validate_without_catalog:
  "validateRowAgainstLenex currentYear row eventsByNumber False = []"
  by (simp add: validateRowAgainstLenex_def split: option.splits)

text \<open>
  Claim C1. Let the compatible candidates of a row (the events under its number that agree
  with it on relay count and distance, and on stroke and gender where the row has them) all
  be in a forbidden round. Then the issues of the round check that the validator returns
  are exactly one \<open>Registration for ROUND\<close> for every distinct round among these candidates,
  in the order of first appearance, and the entry builder finds no winning event for the
  row and skips it.
\<close>

theorem forbidden_rounds_only:
  assumes "eventNumber row = Some n"
    and "cs = compatibleCandidates row (candidatesFor (lenexEventsByNumber lenexSummary) n)"
    and "\<forall>e \<in> set cs. round e \<in> forbiddenRegistrationRounds"
  shows "filter isRegistrationIssue
           (validateRowAgainstLenex currentYear row (lenexEventsByNumber lenexSummary)
              (lenexSummary \<noteq> None)) =
           map (\<lambda>r. ''Registration for '' @ r) (arrayFromSet (map round cs)) \<and>
         distinct (arrayFromSet (map round cs)) \<and>
         set (arrayFromSet (map round cs)) = round ` set cs \<and>
         findMatchingLenexEvent row (lenexEventsByNumber lenexSummary) = None \<and>
         buildStep currentYear (lenexEventsByNumber lenexSummary) st row =
           st\<lparr>skippedDuringBuild := skippedDuringBuild st + 1\<rparr>"
proof (intro conjI)
  show "filter isRegistrationIssue
           (validateRowAgainstLenex currentYear row (lenexEventsByNumber lenexSummary)
              (lenexSummary \<noteq> None)) =
           map (\<lambda>r. ''Registration for '' @ r) (arrayFromSet (map round cs))"
  proof (cases lenexSummary)
    case None
    have "cs = []"
      unfolding assms(2) None by (simp add: candidatesFor_empty compatibleCandidates_Nil)
    then show ?thesis
      by (simp add: None validate_without_catalog arrayFromSet_def)
  next
    case (Some summary)
    have t: "(lenexSummary \<noteq> None) = True" using Some by simp
    show ?thesis
    proof (cases "cs = []")
      case True
      then show ?thesis
        unfolding t validate_registration_filter [OF assms(1)] assms(2) [symmetric]
        by (simp add: arrayFromSet_def)
    next
      case False
      then show ?thesis
        unfolding t validate_registration_filter [OF assms(1)] assms(2) [symmetric]
        by (simp only: Let_def if_False registrationIssues_forbidden [OF assms(3)]
            filter_registration_map)
    qed
  qed
next
  show "distinct (arrayFromSet (map round cs))" by (rule distinct_arrayFromSet)
next
  show "set (arrayFromSet (map round cs)) = round ` set cs"
    by (simp add: set_arrayFromSet)
next
  show none: "findMatchingLenexEvent row (lenexEventsByNumber lenexSummary) = None"
    using assms(3) assms(1) unfolding assms(2) by (rule findMatching_None)
  show "buildStep currentYear (lenexEventsByNumber lenexSummary) st row =
           st\<lparr>skippedDuringBuild := skippedDuringBuild st + 1\<rparr>"
    by (simp add: buildStep_def none)
qed

text \<open>
  Event 5 exists in the round FIN only: a row for it with the right distance, stroke and
  gender gets the issue \<open>Registration for FIN\<close> and no winning event.
\<close>

theorem forbidden_rounds_only_witness:
  "filter isRegistrationIssue
     (validateRowAgainstLenex 2024 (parseRow 1 ''5,100,FR,Doe,John,,M05,2005'')
        (lenexEventsByNumber (Some finalsOnlyMeet)) (Some finalsOnlyMeet \<noteq> None)) =
     [''Registration for FIN''] \<and>
   findMatchingLenexEvent (parseRow 1 ''5,100,FR,Doe,John,,M05,2005'')
     (lenexEventsByNumber (Some finalsOnlyMeet)) = None"
proof -
  let ?row = "parseRow 1 ''5,100,FR,Doe,John,,M05,2005''"
  let ?cs = "compatibleCandidates ?row (candidatesFor (lenexEventsByNumber (Some finalsOnlyMeet)) 5)"
  have a: "eventNumber ?row = Some 5" by code_simp
  have b: "\<forall>e \<in> set ?cs. round e \<in> forbiddenRegistrationRounds" by code_simp
  have c: "map (\<lambda>r. ''Registration for '' @ r) (arrayFromSet (map round ?cs)) =
           [''Registration for FIN'']" by code_simp
  note T = forbidden_rounds_only [OF a refl b, of 2024 initialBuildState]
  show ?thesis
    using T [THEN conjunct1] T [THEN conjunct2, THEN conjunct2, THEN conjunct2, THEN conjunct1]
    unfolding c by (rule conjI)
qed

section \<open>Properties of the entry builder\<close>

lemma map_of_None_keys: "map_of al k = None \<longleftrightarrow> k \<notin> set (map fst al)"
  by (simp add: map_of_eq_None_iff)

lemma update_fresh: "k \<notin> set (map fst al) \<Longrightarrow> AList.update k v (al @ [(k, w)]) = al @ [(k, v)]"
  by (induction al) auto

lemma map_of_fresh: "k \<notin> set (map fst al) \<Longrightarrow> map_of (al @ [(k, v)]) k = Some v"
  by (induction al) auto

lemma addAthleteEntry_new:
  assumes "athleteKey currentYear row \<notin> set (map fst (athleteByKey st))"
  shows "addAthleteEntry currentYear row lenexEvent st =
         st\<lparr>athleteByKey := athleteByKey st @
                [(athleteKey currentYear row,
                  withRow row lenexEvent (createAthleteElement currentYear (nextAthleteId st) row))],
            nextAthleteId := nextAthleteId st + 1\<rparr>"
proof -
  have n: "map_of (athleteByKey st) (athleteKey currentYear row) = None"
    using assms by (simp add: map_of_None_keys)
  show ?thesis
    using assms
    by (simp add: addAthleteEntry_def Let_def n update_fresh withRow_def map_of_fresh
        del: map_of_append)
qed

lemma addAthleteEntry_old:
  assumes "map_of (athleteByKey st) (athleteKey currentYear row) = Some a"
  shows "addAthleteEntry currentYear row lenexEvent st =
         st\<lparr>athleteByKey :=
              AList.update (athleteKey currentYear row) (withRow row lenexEvent a) (athleteByKey st)\<rparr>"
  using assms by (simp add: addAthleteEntry_def Let_def withRow_def)


lemma withRow_fields:
  "entries (withRow row e a) = entries a @ [createEntryElement row e]"
  "handicap (withRow row e a) = handicapStep (handicap a) row"
  "athleteAttributes (withRow row e a) = athleteAttributes a"
  by (simp_all add: withRow_def applyHandicap_def handicapStep_def split: option.splits)

lemma buildLoop_snoc:
  "buildLoop currentYear eventsByNumber (rs @ [r]) =
   buildStep currentYear eventsByNumber (buildLoop currentYear eventsByNumber rs) r"
  by (simp add: buildLoop_def)

lemma buildLoop_Nil: "buildLoop currentYear eventsByNumber [] = initialBuildState"
  by (simp add: buildLoop_def)

lemma buildStep_entered:
  assumes "entered eventsByNumber r"
  shows "\<exists>e. findMatchingLenexEvent r eventsByNumber = Some e \<and>
             buildStep currentYear eventsByNumber st r = addAthleteEntry currentYear r e st"
  using assms by (auto simp: entered_def buildStep_def)

lemma buildStep_other:
  assumes "\<not> entered eventsByNumber r"
  shows "athleteByKey (buildStep currentYear eventsByNumber st r) = athleteByKey st"
    and "nextAthleteId (buildStep currentYear eventsByNumber st r) = nextAthleteId st"
  using assms by (auto simp: entered_def buildStep_def split: option.splits)

lemma arrayFromSet_snoc:
  "arrayFromSet (xs @ [x]) = (if x \<in> set xs then arrayFromSet xs else arrayFromSet xs @ [x])"
  by (simp add: arrayFromSet_def)

lemma athleteKeys_snoc:
  "athleteKeys currentYear eventsByNumber (rs @ [r]) =
     (if entered eventsByNumber r \<and>
         athleteKey currentYear r \<notin> set (athleteKeys currentYear eventsByNumber rs)
      then athleteKeys currentYear eventsByNumber rs @ [athleteKey currentYear r]
      else athleteKeys currentYear eventsByNumber rs)"
  by (simp add: athleteKeys_def arrayFromSet_snoc arrayFromSet_def)

lemma athleteKeys_Nil: "athleteKeys currentYear eventsByNumber [] = []"
  by (simp add: athleteKeys_def arrayFromSet_def)

lemma distinct_athleteKeys: "distinct (athleteKeys currentYear eventsByNumber rs)"
  by (simp add: athleteKeys_def arrayFromSet_def)

lemma set_athleteKeys:
  "set (athleteKeys currentYear eventsByNumber rs) =
   athleteKey currentYear ` {r \<in> set rs. entered eventsByNumber r}"
  by (simp add: athleteKeys_def arrayFromSet_def)

lemma buildLoop_keys:
  "map fst (athleteByKey (buildLoop currentYear eventsByNumber rs)) =
     athleteKeys currentYear eventsByNumber rs \<and>
   nextAthleteId (buildLoop currentYear eventsByNumber rs) =
     Suc (length (athleteKeys currentYear eventsByNumber rs))"
proof (induction rs rule: rev_induct)
  case Nil
  show ?case by (simp add: buildLoop_Nil athleteKeys_Nil initialBuildState_def)
next
  case (snoc r rs)
  let ?st = "buildLoop currentYear eventsByNumber rs"
  let ?k = "athleteKey currentYear r"
  note keys = snoc.IH [THEN conjunct1]
  note next_id = snoc.IH [THEN conjunct2]
  show ?case
  proof (cases "entered eventsByNumber r")
    case False
    then show ?thesis
      unfolding buildLoop_snoc athleteKeys_snoc
      by (simp add: buildStep_other keys next_id)
  next
    case True
    then obtain e where
      step: "buildStep currentYear eventsByNumber ?st r = addAthleteEntry currentYear r e ?st"
      using buildStep_entered by blast
    show ?thesis
    proof (cases "?k \<in> set (athleteKeys currentYear eventsByNumber rs)")
      case False
      then have fresh: "?k \<notin> set (map fst (athleteByKey ?st))" by (simp only: keys not_False_eq_True)
      show ?thesis
        unfolding buildLoop_snoc athleteKeys_snoc step addAthleteEntry_new [OF fresh]
        using True False by (simp add: keys next_id)
    next
      case old: True
      then have "?k \<in> set (map fst (athleteByKey ?st))" by (simp only: keys)
      then obtain a where a: "map_of (athleteByKey ?st) ?k = Some a"
        by (cases "map_of (athleteByKey ?st) ?k") (simp_all add: map_of_None_keys)
      have "map fst (AList.update ?k (withRow r e a) (athleteByKey ?st)) =
            map fst (athleteByKey ?st)"
        using \<open>?k \<in> set (map fst (athleteByKey ?st))\<close> by (simp add: AList.update_keys)
      then show ?thesis
        unfolding buildLoop_snoc athleteKeys_snoc step addAthleteEntry_old [OF a]
        using True old by (simp add: keys next_id)
    qed
  qed
qed


lemma rowsOfAthlete_snoc:
  "rowsOfAthlete currentYear eventsByNumber k (rs @ [r]) =
     (if entered eventsByNumber r \<and> athleteKey currentYear r = k
      then rowsOfAthlete currentYear eventsByNumber k rs @ [r]
      else rowsOfAthlete currentYear eventsByNumber k rs)"
  by (simp add: rowsOfAthlete_def)

lemma rowsOfAthlete_no_key:
  assumes "k \<notin> set (athleteKeys currentYear eventsByNumber rs)"
  shows "rowsOfAthlete currentYear eventsByNumber k rs = []"
proof -
  have "\<not> (entered eventsByNumber r \<and> athleteKey currentYear r = k)" if "r \<in> set rs" for r
    using assms that unfolding set_athleteKeys by blast
  then show ?thesis by (simp add: rowsOfAthlete_def filter_empty_conv)
qed

lemma entriesOf_snoc:
  "findMatchingLenexEvent r eventsByNumber = Some e \<Longrightarrow>
   entriesOf eventsByNumber (rs @ [r]) = entriesOf eventsByNumber rs @ [createEntryElement r e]"
  by (simp add: entriesOf_def entryOf_def)

lemma handicapAfter_snoc: "handicapAfter (rs @ [r]) = handicapStep (handicapAfter rs) r"
  by (simp add: handicapAfter_def)

lemma created_fields:
  "entries (createAthleteElement currentYear n r) = []"
  "handicap (createAthleteElement currentYear n r) = None"
  by (simp_all add: createAthleteElement_def Let_def)

lemma buildLoop_records:
  "map_of (athleteByKey (buildLoop currentYear eventsByNumber rs)) k = Some a \<Longrightarrow>
   entries a = entriesOf eventsByNumber (rowsOfAthlete currentYear eventsByNumber k rs) \<and>
   handicap a = handicapAfter (rowsOfAthlete currentYear eventsByNumber k rs)"
proof (induction rs arbitrary: a k rule: rev_induct)
  case Nil
  then show ?case by (simp add: buildLoop_Nil initialBuildState_def)
next
  case (snoc r rs)
  let ?st = "buildLoop currentYear eventsByNumber rs"
  let ?kr = "athleteKey currentYear r"
  note keys = buildLoop_keys [of currentYear eventsByNumber rs, THEN conjunct1]
  show ?case
  proof (cases "entered eventsByNumber r")
    case False
    have "map_of (athleteByKey ?st) k = Some a"
      using snoc.prems unfolding buildLoop_snoc buildStep_other(1) [OF False] .
    then show ?thesis
      using snoc.IH False by (simp add: rowsOfAthlete_snoc)
  next
    case True
    then obtain e where ev: "findMatchingLenexEvent r eventsByNumber = Some e"
      and step: "buildStep currentYear eventsByNumber ?st r = addAthleteEntry currentYear r e ?st"
      using buildStep_entered by blast
    show ?thesis
    proof (cases "?kr \<in> set (athleteKeys currentYear eventsByNumber rs)")
      case False
      then have fresh: "?kr \<notin> set (map fst (athleteByKey ?st))" by (simp only: keys not_False_eq_True)
      have none: "rowsOfAthlete currentYear eventsByNumber ?kr rs = []"
        using False by (rule rowsOfAthlete_no_key)
      have look: "map_of (athleteByKey ?st @
                   [(?kr, withRow r e (createAthleteElement currentYear (nextAthleteId ?st) r))]) k
                  = Some a"
        using snoc.prems unfolding buildLoop_snoc step addAthleteEntry_new [OF fresh] by simp
      show ?thesis
      proof (cases "k = ?kr")
        case same: True
        have "a = withRow r e (createAthleteElement currentYear (nextAthleteId ?st) r)"
          using look fresh unfolding same by (simp add: map_of_fresh del: map_of_append)
        then show ?thesis
          using True ev
          by (simp add: same rowsOfAthlete_snoc none withRow_fields created_fields
              entriesOf_def entryOf_def handicapAfter_def)
      next
        case other: False
        have "map_of (athleteByKey ?st) k = Some a"
          using look other by (simp add: map_add_def split: option.splits)
        then show ?thesis
          using snoc.IH other by (simp add: rowsOfAthlete_snoc)
      qed
    next
      case old: True
      then have "?kr \<in> set (map fst (athleteByKey ?st))" by (simp only: keys)
      then obtain a0 where a0: "map_of (athleteByKey ?st) ?kr = Some a0"
        by (cases "map_of (athleteByKey ?st) ?kr") (simp_all add: map_of_None_keys)
      have look: "((map_of (athleteByKey ?st))(?kr \<mapsto> withRow r e a0)) k = Some a"
        using snoc.prems unfolding buildLoop_snoc step addAthleteEntry_old [OF a0]
        by (simp add: AList.update_conv')
      show ?thesis
      proof (cases "k = ?kr")
        case same: True
        have a: "a = withRow r e a0" using look same by simp
        note ih = snoc.IH [OF a0]
        show ?thesis
          using True ih
          by (simp add: same a rowsOfAthlete_snoc withRow_fields entriesOf_snoc [OF ev]
              handicapAfter_snoc)
      next
        case other: False
        have "map_of (athleteByKey ?st) k = Some a" using look other by simp
        then show ?thesis
          using snoc.IH other by (simp add: rowsOfAthlete_snoc)
      qed
    qed
  qed
qed


lemma String_nat_nonempty: "String_nat n \<noteq> []"
  by (subst String_nat.simps) simp

lemma map_of_setAttribute:
  "map_of (setAttribute attrs n v) = (map_of attrs)(n \<mapsto> v)"
  by (simp add: setAttribute_def AList.update_conv')

lemma created_id:
  "map_of (athleteAttributes (createAthleteElement currentYear n r)) ''athleteid'' =
   Some (String_nat n)"
  by (simp add: createAthleteElement_def Let_def setAttributes_def map_of_setAttribute
      String_nat_nonempty split: option.splits)

lemma update_preserves:
  "map_of al k = Some a0 \<Longrightarrow> g v = g a0 \<Longrightarrow>
   map (\<lambda>p. g (snd p)) (AList.update k v al) = map (\<lambda>p. g (snd p)) al"
  by (induction al) (auto split: if_splits)

lemma buildLoop_ids:
  "map (\<lambda>p. map_of (athleteAttributes (snd p)) ''athleteid'')
     (athleteByKey (buildLoop currentYear eventsByNumber rs)) =
   map (\<lambda>i. Some (String_nat i)) [1..<Suc (length (athleteKeys currentYear eventsByNumber rs))]"
proof (induction rs rule: rev_induct)
  case Nil
  show ?case by (simp add: buildLoop_Nil athleteKeys_Nil initialBuildState_def)
next
  case (snoc r rs)
  let ?st = "buildLoop currentYear eventsByNumber rs"
  let ?kr = "athleteKey currentYear r"
  note keys = buildLoop_keys [of currentYear eventsByNumber rs, THEN conjunct1]
  note next_id = buildLoop_keys [of currentYear eventsByNumber rs, THEN conjunct2]
  show ?case
  proof (cases "entered eventsByNumber r")
    case False
    then show ?thesis
      unfolding buildLoop_snoc athleteKeys_snoc buildStep_other(1) [OF False]
      using snoc.IH by simp
  next
    case True
    then obtain e where
      step: "buildStep currentYear eventsByNumber ?st r = addAthleteEntry currentYear r e ?st"
      using buildStep_entered by blast
    show ?thesis
    proof (cases "?kr \<in> set (athleteKeys currentYear eventsByNumber rs)")
      case False
      then have fresh: "?kr \<notin> set (map fst (athleteByKey ?st))" by (simp only: keys not_False_eq_True)
      show ?thesis
        unfolding buildLoop_snoc athleteKeys_snoc step addAthleteEntry_new [OF fresh]
        using True False snoc.IH
        by (simp add: withRow_fields created_id next_id)
    next
      case old: True
      then have "?kr \<in> set (map fst (athleteByKey ?st))" by (simp only: keys)
      then obtain a0 where a0: "map_of (athleteByKey ?st) ?kr = Some a0"
        by (cases "map_of (athleteByKey ?st) ?kr") (simp_all add: map_of_None_keys)
      have same: "map (\<lambda>p. map_of (athleteAttributes (snd p)) ''athleteid'')
                    (AList.update ?kr (withRow r e a0) (athleteByKey ?st)) =
                  map (\<lambda>p. map_of (athleteAttributes (snd p)) ''athleteid'') (athleteByKey ?st)"
        using a0 by (rule update_preserves) (simp add: withRow_fields)
      show ?thesis
        unfolding buildLoop_snoc athleteKeys_snoc step addAthleteEntry_old [OF a0]
        using True old snoc.IH by (simp add: same)
    qed
  qed
qed

lemma nth_alist:
  assumes "distinct (map fst al)" "j < length al"
  shows "map_of al (map fst al ! j) = Some (snd (al ! j))"
proof -
  have "(fst (al ! j), snd (al ! j)) \<in> set al" using assms(2) by simp
  then have "map_of al (fst (al ! j)) = Some (snd (al ! j))"
    using assms(1) by (simp only: map_of_eq_Some_iff)
  then show ?thesis using assms(2) by simp
qed

subsection \<open>One athlete element per swimmer\<close>

lemma sameSwimmer_key:
  "sameSwimmer currentYear r r' \<Longrightarrow> athleteKey currentYear r = athleteKey currentYear r'"
  by (simp add: sameSwimmer_def athleteKey_def birthYearText_def)

lemma length_entriesOf:
  "\<forall>r \<in> set rs. findMatchingLenexEvent r eventsByNumber \<noteq> None \<Longrightarrow>
   length (entriesOf eventsByNumber rs) = length rs"
  by (induction rs) (auto simp: entriesOf_def entryOf_def)

lemma length_entriesOf_athlete:
  "length (entriesOf eventsByNumber (rowsOfAthlete currentYear eventsByNumber k rs)) =
   length (rowsOfAthlete currentYear eventsByNumber k rs)"
  by (rule length_entriesOf) (simp add: rowsOfAthlete_def entered_def)

lemma athletes_nth:
  assumes "j < length (athleteKeys currentYear eventsByNumber rs)"
  shows "map_of (athleteByKey (buildLoop currentYear eventsByNumber rs))
           (athleteKeys currentYear eventsByNumber rs ! j) =
         Some (athletes (buildLenexEntriesXml currentYear club rs eventsByNumber) ! j)"
proof -
  let ?al = "athleteByKey (buildLoop currentYear eventsByNumber rs)"
  note keys = buildLoop_keys [of currentYear eventsByNumber rs, THEN conjunct1]
  have d: "distinct (map fst ?al)" unfolding keys by (rule distinct_athleteKeys)
  have l: "j < length ?al" using assms keys by (metis length_map)
  have "map_of ?al (map fst ?al ! j) = Some (snd (?al ! j))" using d l by (rule nth_alist)
  then show ?thesis
    unfolding keys using l by (simp add: buildLenexEntriesXml_def Let_def)
qed

lemma length_athletes:
  "length (athletes (buildLenexEntriesXml currentYear club rs eventsByNumber)) =
   length (athleteKeys currentYear eventsByNumber rs)"
  using buildLoop_keys [of currentYear eventsByNumber rs, THEN conjunct1]
  by (metis (no_types, lifting) buildLenexEntriesXml_def length_map Club.select_convs(2))

lemma athlete_id_nth:
  assumes "j < length (athleteKeys currentYear eventsByNumber rs)"
  shows "getAttribute
           (athleteAttributes (athletes (buildLenexEntriesXml currentYear club rs eventsByNumber) ! j))
           ''athleteid'' = Some (String_nat (j + 1))"
proof -
  let ?al = "athleteByKey (buildLoop currentYear eventsByNumber rs)"
  let ?n = "length (athleteKeys currentYear eventsByNumber rs)"
  have l: "length ?al = ?n"
    using buildLoop_keys [of currentYear eventsByNumber rs, THEN conjunct1] by (metis length_map)
  have "map (\<lambda>p. map_of (athleteAttributes (snd p)) ''athleteid'') ?al ! j =
        map (\<lambda>i. Some (String_nat i)) [1..<Suc ?n] ! j"
    by (simp only: buildLoop_ids)
  then have "map_of (athleteAttributes (snd (?al ! j))) ''athleteid'' = Some (String_nat (1 + j))"
    using assms l by (simp del: upt_Suc)
  then show ?thesis
    using assms l by (simp add: buildLenexEntriesXml_def Let_def getAttribute_def)
qed


text \<open>
  Claim C2, as the code has it. The build loop makes one athlete element for every
  distinct key among the rows it enters (the rows that have a winning event and are not
  relays), in the order in which the keys first appear, and numbers them 1, 2, 3 and so on.
  The element of a key carries one entry for every entered row with that key, in row
  order. Two entered rows of the same swimmer have the same key, so both have their entry
  in one and the same element. A row without a winning event is skipped and adds nothing.
\<close>

theorem one_athlete_per_swimmer:
  assumes "club = buildLenexEntriesXml currentYear clubText rs eventsByNumber"
    and "ks = athleteKeys currentYear eventsByNumber rs"
  shows "length (athletes club) = length ks \<and> distinct ks \<and>
         (\<forall>j < length ks.
            entries (athletes club ! j) =
              entriesOf eventsByNumber (rowsOfAthlete currentYear eventsByNumber (ks ! j) rs) \<and>
            length (entries (athletes club ! j)) =
              length (rowsOfAthlete currentYear eventsByNumber (ks ! j) rs) \<and>
            getAttribute (athleteAttributes (athletes club ! j)) ''athleteid'' =
              Some (String_nat (j + 1))) \<and>
         (\<forall>r \<in> set rs. \<forall>r' \<in> set rs.
            entered eventsByNumber r \<and> entered eventsByNumber r' \<and> sameSwimmer currentYear r r' \<longrightarrow>
            (\<exists>!j. j < length ks \<and> ks ! j = athleteKey currentYear r) \<and>
            (\<forall>j < length ks. ks ! j = athleteKey currentYear r \<longrightarrow>
               r \<in> set (rowsOfAthlete currentYear eventsByNumber (ks ! j) rs) \<and>
               r' \<in> set (rowsOfAthlete currentYear eventsByNumber (ks ! j) rs)))"
proof (intro conjI allI impI ballI)
  show "length (athletes club) = length ks"
    unfolding assms by (rule length_athletes)
  show "distinct ks" unfolding assms by (rule distinct_athleteKeys)
next
  fix j assume j: "j < length ks"
  then have j': "j < length (athleteKeys currentYear eventsByNumber rs)" by (simp only: assms)
  note rec = buildLoop_records [OF athletes_nth [OF j', of clubText]]
  show e: "entries (athletes club ! j) =
        entriesOf eventsByNumber (rowsOfAthlete currentYear eventsByNumber (ks ! j) rs)"
    unfolding assms by (rule rec [THEN conjunct1])
  show "length (entries (athletes club ! j)) =
        length (rowsOfAthlete currentYear eventsByNumber (ks ! j) rs)"
    unfolding e by (rule length_entriesOf_athlete)
  show "getAttribute (athleteAttributes (athletes club ! j)) ''athleteid'' =
        Some (String_nat (j + 1))"
    unfolding assms(1) using j' by (rule athlete_id_nth)
next
  fix r r' assume r: "r \<in> set rs" and r': "r' \<in> set rs"
    and h: "entered eventsByNumber r \<and> entered eventsByNumber r' \<and> sameSwimmer currentYear r r'"
  have k: "athleteKey currentYear r' = athleteKey currentYear r"
    using h sameSwimmer_key by (metis (no_types))
  have "athleteKey currentYear r \<in> set ks"
    unfolding assms set_athleteKeys using r h by blast
  moreover have "distinct ks" unfolding assms by (rule distinct_athleteKeys)
  ultimately show "\<exists>!j. j < length ks \<and> ks ! j = athleteKey currentYear r"
    by (simp only: distinct_Ex1)
  fix j assume "j < length ks" and kj: "ks ! j = athleteKey currentYear r"
  show "r \<in> set (rowsOfAthlete currentYear eventsByNumber (ks ! j) rs)"
    using r h by (simp add: rowsOfAthlete_def kj)
  show "r' \<in> set (rowsOfAthlete currentYear eventsByNumber (ks ! j) rs)"
    using r' h k by (simp add: rowsOfAthlete_def kj)
qed


text \<open>
  One swimmer entered for the 100 m and the 200 m breaststroke: one athlete element with
  the identifier 1 and two entries.
\<close>

theorem one_athlete_per_swimmer_witness:
  "length (athletes (buildLenexEntriesXml 2024 ''Club''
             [parseRow 1 ''5,100,BR,Doe,John,,M05,SB7'', parseRow 2 ''7,200,BR,Doe,John,,M05,SB7'']
             (lenexEventsByNumber (Some splitMeet)))) = 1 \<and>
   length (entries (athletes (buildLenexEntriesXml 2024 ''Club''
             [parseRow 1 ''5,100,BR,Doe,John,,M05,SB7'', parseRow 2 ''7,200,BR,Doe,John,,M05,SB7'']
             (lenexEventsByNumber (Some splitMeet))) ! 0)) = 2 \<and>
   getAttribute (athleteAttributes (athletes (buildLenexEntriesXml 2024 ''Club''
             [parseRow 1 ''5,100,BR,Doe,John,,M05,SB7'', parseRow 2 ''7,200,BR,Doe,John,,M05,SB7'']
             (lenexEventsByNumber (Some splitMeet))) ! 0)) ''athleteid'' = Some ''1''"
proof -
  let ?rs = "[parseRow 1 ''5,100,BR,Doe,John,,M05,SB7'', parseRow 2 ''7,200,BR,Doe,John,,M05,SB7'']"
  let ?ebn = "lenexEventsByNumber (Some splitMeet)"
  have ks: "athleteKeys 2024 ?ebn ?rs = [''Doe|John|M|2005'']" by code_simp
  have n: "length (rowsOfAthlete 2024 ?ebn ''Doe|John|M|2005'' ?rs) = 2" by code_simp
  have s: "String_nat (0 + 1) = ''1''" by code_simp
  note T = one_athlete_per_swimmer [OF refl refl, of 2024 "''Club''" ?rs ?ebn, unfolded ks]
  have 1: "length (athletes (buildLenexEntriesXml 2024 ''Club'' ?rs ?ebn)) = 1"
    using T [THEN conjunct1] by simp
  have lt: "0 < length [''Doe|John|M|2005'']" by simp
  note J = T [THEN conjunct2, THEN conjunct2, THEN conjunct1, rule_format, OF lt]
  have 2: "length (entries (athletes (buildLenexEntriesXml 2024 ''Club'' ?rs ?ebn) ! 0)) = 2"
    using J [THEN conjunct2, THEN conjunct1] by (simp only: nth_Cons_0 n)
  have 3: "getAttribute (athleteAttributes (athletes (buildLenexEntriesXml 2024 ''Club'' ?rs ?ebn) ! 0))
             ''athleteid'' = Some ''1''"
    using J [THEN conjunct2, THEN conjunct2] by (simp only: s)
  show ?thesis using 1 2 3 by (intro conjI)
qed

text \<open>
  Two exportable rows of one swimmer, the second for event 6: the validator raises nothing
  against it, since one record of event 6 has its relay count and another its distance,
  but no record is its winning event. The athlete element carries one entry, not two.
\<close>

theorem skipped_row_counterexample:
  "parseUniP ''Club\<newline>5,100,BR,Doe,John,,M05,SB7\<newline>6,200,IM,Doe,John,,M05,SM5'' =
     Inr \<lparr>clubName = ''Club'',
          rows = [parseRow 1 ''5,100,BR,Doe,John,,M05,SB7'',
                  parseRow 2 ''6,200,IM,Doe,John,,M05,SM5'']\<rparr> \<and>
   exportableRows 2024
     [parseRow 1 ''5,100,BR,Doe,John,,M05,SB7'', parseRow 2 ''6,200,IM,Doe,John,,M05,SM5'']
     (Some splitMeet) =
     [parseRow 1 ''5,100,BR,Doe,John,,M05,SB7'', parseRow 2 ''6,200,IM,Doe,John,,M05,SM5''] \<and>
   sameSwimmer 2024 (parseRow 1 ''5,100,BR,Doe,John,,M05,SB7'')
     (parseRow 2 ''6,200,IM,Doe,John,,M05,SM5'') \<and>
   \<not> relayCount (parseRow 1 ''5,100,BR,Doe,John,,M05,SB7'') > 1 \<and>
   \<not> relayCount (parseRow 2 ''6,200,IM,Doe,John,,M05,SM5'') > 1 \<and>
   length (athletes (buildLenexEntriesXml 2024 ''Club''
     [parseRow 1 ''5,100,BR,Doe,John,,M05,SB7'', parseRow 2 ''6,200,IM,Doe,John,,M05,SM5'']
     (lenexEventsByNumber (Some splitMeet)))) = 1 \<and>
   length (entries (athletes (buildLenexEntriesXml 2024 ''Club''
     [parseRow 1 ''5,100,BR,Doe,John,,M05,SB7'', parseRow 2 ''6,200,IM,Doe,John,,M05,SM5'']
     (lenexEventsByNumber (Some splitMeet))) ! 0)) = 1"
  by code_simp

subsection \<open>The handicap element\<close>

lemma lastLevel_snoc:
  "lastLevel a (rs @ [r]) =
     (if map_option fst (getHandicapFromClass (birthYearOrClass r)) = Some a
      then map_option snd (getHandicapFromClass (birthYearOrClass r))
      else lastLevel a rs)"
  by (simp add: lastLevel_def)

lemma handicapStep_None:
  "handicapStep h r = None \<longleftrightarrow> h = None \<and> getHandicapFromClass (birthYearOrClass r) = None"
  by (auto simp: handicapStep_def split: option.splits)

lemma handicapAfter_None_iff:
  "handicapAfter rs = None \<longleftrightarrow> (\<forall>r \<in> set rs. getHandicapFromClass (birthYearOrClass r) = None)"
  by (induction rs rule: rev_induct) (auto simp: handicapAfter_snoc handicapStep_None handicapAfter_def)

lemma handicapAfter_attrs:
  "distinct (map fst (attrsOf (handicapAfter rs))) \<and>
   (\<forall>a. map_of (attrsOf (handicapAfter rs)) a = lastLevel a rs)"
proof (induction rs rule: rev_induct)
  case Nil
  show ?case by (simp add: handicapAfter_def attrsOf_def lastLevel_def)
next
  case (snoc r rs)
  show ?case
  proof (cases "getHandicapFromClass (birthYearOrClass r)")
    case None
    then show ?thesis
      using snoc.IH by (simp add: handicapAfter_snoc handicapStep_def lastLevel_snoc)
  next
    case (Some p)
    obtain at lv where p: "p = (at, lv)" by (cases p)
    have step: "attrsOf (handicapAfter (rs @ [r])) =
                AList.update at lv (attrsOf (handicapAfter rs))"
      by (simp add: handicapAfter_snoc handicapStep_def Some p attrsOf_def setAttribute_def)
    show ?thesis
      unfolding step using snoc.IH
      by (simp add: AList.distinct_update AList.update_conv' lastLevel_snoc Some p)
  qed
qed


text \<open>
  Claim C10, as the code has it. The handicap element of an athlete is what the athlete's
  entered rows (those with a winning event), taken in order, leave behind when each row with
  a para class sets the attribute of its prefix to its level. The element exists exactly
  when one of these rows has a para class; it has one attribute for every prefix that
  occurs, and the value of an attribute is the level of the last row with that prefix.
  A row without a winning event is skipped and sets nothing.
\<close>

theorem handicap_accumulates:
  assumes "club = buildLenexEntriesXml currentYear clubText rs eventsByNumber"
    and "ks = athleteKeys currentYear eventsByNumber rs"
  shows "(\<forall>j < length ks.
            handicap (athletes club ! j) =
              handicapAfter (rowsOfAthlete currentYear eventsByNumber (ks ! j) rs)) \<and>
         (\<forall>xs. (handicapAfter xs = None \<longleftrightarrow>
                  (\<forall>r \<in> set xs. getHandicapFromClass (birthYearOrClass r) = None)) \<and>
               (\<forall>h. handicapAfter xs = Some h \<longrightarrow>
                  distinct (map fst h) \<and> (\<forall>a. getAttribute h a = lastLevel a xs)))"
proof (intro conjI allI impI)
  fix j assume "j < length ks"
  then have j': "j < length (athleteKeys currentYear eventsByNumber rs)" by (simp only: assms)
  note rec = buildLoop_records [OF athletes_nth [OF j', of clubText]]
  show "handicap (athletes club ! j) =
        handicapAfter (rowsOfAthlete currentYear eventsByNumber (ks ! j) rs)"
    unfolding assms by (rule rec [THEN conjunct2])
next
  fix xs
  show "handicapAfter xs = None \<longleftrightarrow>
        (\<forall>r \<in> set xs. getHandicapFromClass (birthYearOrClass r) = None)"
    by (rule handicapAfter_None_iff)
next
  fix xs h assume h: "handicapAfter xs = Some h"
  have a: "attrsOf (handicapAfter xs) = h" by (simp add: h attrsOf_def)
  show "distinct (map fst h)"
    using handicapAfter_attrs [of xs, THEN conjunct1] unfolding a .
  fix at
  show "getAttribute h at = lastLevel at xs"
    using handicapAfter_attrs [of xs, THEN conjunct2, THEN spec, of at] unfolding a
    by (simp add: getAttribute_def)
qed

text \<open>
  A swimmer entered with class SB7, then SM5, then SB9: the handicap element has the two
  attributes breast and medley, and breast has the later level 9.
\<close>

theorem handicap_accumulates_witness:
  "handicap (athletes (buildLenexEntriesXml 2024 ''Club''
      [parseRow 1 ''5,100,BR,Doe,John,,M05,SB7'', parseRow 2 ''8,200,IM,Doe,John,,M05,SM5'',
       parseRow 3 ''7,200,BR,Doe,John,,M05,SB9'']
      (lenexEventsByNumber (Some splitMeet))) ! 0) =
   Some [(''breast'', ''9''), (''medley'', ''5'')]"
proof -
  let ?rs = "[parseRow 1 ''5,100,BR,Doe,John,,M05,SB7'', parseRow 2 ''8,200,IM,Doe,John,,M05,SM5'',
       parseRow 3 ''7,200,BR,Doe,John,,M05,SB9'']"
  let ?ebn = "lenexEventsByNumber (Some splitMeet)"
  have ks: "athleteKeys 2024 ?ebn ?rs = [''Doe|John|M|2005'']" by code_simp
  have v: "handicapAfter (rowsOfAthlete 2024 ?ebn ''Doe|John|M|2005'' ?rs) =
           Some [(''breast'', ''9''), (''medley'', ''5'')]" by code_simp
  have lt: "0 < length [''Doe|John|M|2005'']" by simp
  note T = handicap_accumulates [where currentYear = 2024 and clubText = "''Club''"
      and rs = ?rs and eventsByNumber = ?ebn, OF refl refl, unfolded ks]
  note J = T [THEN conjunct1, rule_format, OF lt]
  show ?thesis using J by (simp only: nth_Cons_0 v)
qed

text \<open>
  Two exportable rows of one swimmer with the classes SB7 and SM5, the second for event 6,
  which has no winning event for it: the handicap element has the attribute breast only.
\<close>

theorem skipped_class_counterexample:
  "exportableRows 2024
     [parseRow 1 ''5,100,BR,Doe,John,,M05,SB7'', parseRow 2 ''6,200,IM,Doe,John,,M05,SM5'']
     (Some splitMeet) =
     [parseRow 1 ''5,100,BR,Doe,John,,M05,SB7'', parseRow 2 ''6,200,IM,Doe,John,,M05,SM5''] \<and>
   sameSwimmer 2024 (parseRow 1 ''5,100,BR,Doe,John,,M05,SB7'')
     (parseRow 2 ''6,200,IM,Doe,John,,M05,SM5'') \<and>
   getHandicapFromClass (birthYearOrClass (parseRow 1 ''5,100,BR,Doe,John,,M05,SB7'')) =
     Some (''breast'', ''7'') \<and>
   getHandicapFromClass (birthYearOrClass (parseRow 2 ''6,200,IM,Doe,John,,M05,SM5'')) =
     Some (''medley'', ''5'') \<and>
   handicap (athletes (buildLenexEntriesXml 2024 ''Club''
     [parseRow 1 ''5,100,BR,Doe,John,,M05,SB7'', parseRow 2 ''6,200,IM,Doe,John,,M05,SM5'']
     (lenexEventsByNumber (Some splitMeet))) ! 0) = Some [(''breast'', ''7'')]"
  by code_simp

section \<open>The pipeline and the clock\<close>

lemma inferFullYear_mod:
  assumes "cy mod 100 = cy' mod 100"
  shows "inferFullYearFromAgeGroup cy = inferFullYearFromAgeGroup cy'"
  using assms by (simp add: fun_eq_iff inferFullYearFromAgeGroup_def)

lemma inferBirthYear_mod:
  assumes "cy mod 100 = cy' mod 100"
  shows "inferBirthYear cy = inferBirthYear cy'"
  unfolding fun_eq_iff inferBirthYear_def inferFullYear_mod [OF assms] by simp

lemma getAgeAtEventYear_mod:
  assumes "cy mod 100 = cy' mod 100"
  shows "getAgeAtEventYear cy = getAgeAtEventYear cy'"
  unfolding fun_eq_iff getAgeAtEventYear_def inferBirthYear_mod [OF assms] by simp

lemma ageIssues_mod:
  assumes "cy mod 100 = cy' mod 100"
  shows "ageIssues cy = ageIssues cy'"
  unfolding fun_eq_iff ageIssues_def getAgeAtEventYear_mod [OF assms] by simp

lemma validate_mod:
  assumes "cy mod 100 = cy' mod 100"
  shows "validateRowAgainstLenex cy = validateRowAgainstLenex cy'"
  unfolding fun_eq_iff validateRowAgainstLenex_def ageIssues_mod [OF assms] by simp

lemma mergedIssues_mod:
  assumes "cy mod 100 = cy' mod 100"
  shows "mergedIssuesByRowKey cy = mergedIssuesByRowKey cy'"
  unfolding fun_eq_iff mergedIssuesByRowKey_def validate_mod [OF assms] by simp

lemma effectiveIssues_mod:
  assumes "cy mod 100 = cy' mod 100"
  shows "effectiveIssues cy = effectiveIssues cy'"
  unfolding fun_eq_iff effectiveIssues_def mergedIssues_mod [OF assms] by simp

lemma exportableRows_mod:
  assumes "cy mod 100 = cy' mod 100"
  shows "exportableRows cy = exportableRows cy'"
  unfolding fun_eq_iff exportableRows_def effectiveIssues_mod [OF assms] by simp

lemma athleteKey_mod:
  assumes "cy mod 100 = cy' mod 100"
  shows "athleteKey cy = athleteKey cy'"
  unfolding fun_eq_iff athleteKey_def inferBirthYear_mod [OF assms] by simp

lemma createAthleteElement_mod:
  assumes "cy mod 100 = cy' mod 100"
  shows "createAthleteElement cy = createAthleteElement cy'"
  unfolding fun_eq_iff createAthleteElement_def inferBirthYear_mod [OF assms] by simp

lemma addAthleteEntry_mod:
  assumes "cy mod 100 = cy' mod 100"
  shows "addAthleteEntry cy = addAthleteEntry cy'"
  unfolding fun_eq_iff addAthleteEntry_def athleteKey_mod [OF assms]
    createAthleteElement_mod [OF assms] by simp

lemma buildStep_mod:
  assumes "cy mod 100 = cy' mod 100"
  shows "buildStep cy = buildStep cy'"
  unfolding fun_eq_iff buildStep_def addAthleteEntry_mod [OF assms] by simp

lemma buildLenexEntriesXml_mod:
  assumes "cy mod 100 = cy' mod 100"
  shows "buildLenexEntriesXml cy = buildLenexEntriesXml cy'"
  unfolding fun_eq_iff buildLenexEntriesXml_def buildLoop_def buildStep_mod [OF assms] by simp

lemma exportEntries_mod:
  assumes "cy mod 100 = cy' mod 100"
  shows "exportEntries cy = exportEntries cy'"
  unfolding fun_eq_iff exportEntries_def exportableRows_mod [OF assms]
    buildLenexEntriesXml_mod [OF assms] by simp

text \<open>
  Claim C8, as the code has it. Parsing does not read the clock: a run fails exactly when
  \<open>parseUniP\<close> fails, and the rows of a run are the rows of \<open>parseUniP\<close>. Validation and
  entry building read the current year, and only its last two digits matter: two runs on
  the same registration text and catalog in years that agree in these digits, in
  particular two runs in the same year, give the same rows, the same issue lists and the
  same generated elements with their identifiers.
\<close>

theorem runPipeline_same_year_digits:
  "(cy mod 100 = cy' mod 100 \<longrightarrow>
      runPipeline cy content lenexSummary = runPipeline cy' content lenexSummary) \<and>
   (\<forall>e. runPipeline cy content lenexSummary = Inl e \<longleftrightarrow> parseUniP content = Inl e) \<and>
   (\<forall>res. runPipeline cy content lenexSummary = Inr res \<longrightarrow>
      (\<exists>parsed. parseUniP content = Inr parsed \<and> parsedRows res = rows parsed))"
proof (intro conjI impI allI)
  assume m: "cy mod 100 = cy' mod 100"
  show "runPipeline cy content lenexSummary = runPipeline cy' content lenexSummary"
    unfolding runPipeline_def effectiveIssues_mod [OF m] exportEntries_mod [OF m] by simp
next
  fix e
  show "runPipeline cy content lenexSummary = Inl e \<longleftrightarrow> parseUniP content = Inl e"
    by (simp add: runPipeline_def split: sum.splits)
next
  fix res assume "runPipeline cy content lenexSummary = Inr res"
  then show "\<exists>parsed. parseUniP content = Inr parsed \<and> parsedRows res = rows parsed"
    by (auto simp: runPipeline_def split: sum.splits)
qed

text \<open>The same text and catalog in 2024 and in 2124.\<close>

theorem runPipeline_same_year_digits_witness:
  "runPipeline 2024 ''Club\<newline>5,100,FR,Doe,John,,M25,S5'' (Some youthMeet) =
   runPipeline 2124 ''Club\<newline>5,100,FR,Doe,John,,M25,S5'' (Some youthMeet)"
proof -
  have "(2024::nat) mod 100 = 2124 mod 100" by simp
  then show ?thesis
    using runPipeline_same_year_digits
      [of 2024 2124 "''Club\<newline>5,100,FR,Doe,John,,M25,S5''" "Some youthMeet", THEN conjunct1]
    by (rule rev_mp)
qed

text \<open>
  The same text and catalog in 2024 and in 2025. The marker 25 means 1925 in the first
  year and 2025 in the second, so the swimmer is 105 or 5 years old at the event: the first
  run raises an age issue, the second run raises none.
\<close>

theorem clock_counterexample:
  "effectiveIssues 2024 [parseRow 1 ''5,100,FR,Doe,John,,M25,S5''] (Some youthMeet)
     (parseRow 1 ''5,100,FR,Doe,John,,M25,S5'') =
     [''Invalid age group (age 105 not allowed for event 5)''] \<and>
   effectiveIssues 2025 [parseRow 1 ''5,100,FR,Doe,John,,M25,S5''] (Some youthMeet)
     (parseRow 1 ''5,100,FR,Doe,John,,M25,S5'') = [] \<and>
   runPipeline 2024 ''Club\<newline>5,100,FR,Doe,John,,M25,S5'' (Some youthMeet) \<noteq>
   runPipeline 2025 ''Club\<newline>5,100,FR,Doe,John,,M25,S5'' (Some youthMeet)"
  by code_simp

end
